theory Spec2Isabelle
  imports Complex_Main
begin

section \<open>Credit-utilization waterfall (gstr3b.js, computeTaxPayment)\<close>

text \<open>
  Amounts are JavaScript numbers (IEEE doubles) in the source. They are modelled as exact
  real numbers, so that \<open>Math.round(x * 100) / 100\<close> is rounding to a whole number of
  hundredths with halves rounded towards plus infinity, as \<open>Math.round\<close> does. A sum or a
  difference is exact in the model, whereas the source rounds it in the last binary digit:
  \<open>100.1 - 66.73\<close> is \<open>33.370000000000005\<close> there. An equation between two sums of
  outputs can therefore hold in the model and fail in the source by such a digit. The
  properties of \<open>computeTaxPayment\<close> proved below are of the kinds that do not depend on
  the last digit: inequalities between quantities that \<open>min\<close>, subtraction and rounding keep
  in order, bounds with a margin of half a hundredth on amounts of bounded size, equations
  between figures rounded to two decimals, and statements of which inputs an output depends
  on.
\<close>

definition round2 :: "real \<Rightarrow> real" where
  "round2 x = of_int \<lfloor>x * 100 + 1 / 2\<rfloor> / 100"

text \<open>An amount is a whole number of hundredths exactly when rounding leaves it alone.\<close>

definition twoDecimals :: "real \<Rightarrow> bool" where
  "twoDecimals x \<longleftrightarrow> round2 x = x"

text \<open>
  The per-head objects \<open>{igst, cgst, sgst, cess}\<close> of the source; the prefix keeps the
  field names apart from those of the invoice record below.
\<close>

record heads =
  h_igst :: real
  h_cgst :: real
  h_sgst :: real
  h_cess :: real

record headsTotal = heads +
  h_total :: real

record utilization =
  igstToIgst :: real
  igstToCgst :: real
  igstToSgst :: real
  cgstToCgst :: real
  cgstToIgst :: real
  sgstToSgst :: real
  sgstToIgst :: real
  cessTocess :: real

record taxPayment =
  liability :: heads
  itcAvailable :: heads
  utilization :: utilization
  itcUtilized :: headsTotal
  cashPayable :: headsTotal
  itcBalance :: headsTotal
  totalLiability :: real
  netPayable :: real
  interestPayable :: real
  lateFeeCGST :: real
  lateFeeSGST :: real

text \<open>
  \<open>computeTaxPayment(table3_1, table4, previousBalance)\<close> reads only
  \<open>table3_1.totalLiability\<close> and \<open>table4.netITC\<close>; \<open>previousBalance\<close> is never used.
  The model takes the two per-head objects. Each \<open>let\<close> below is one assignment of the
  source, in the source's order; a primed name is the variable after its update.
\<close>

definition computeTaxPayment :: "heads \<Rightarrow> heads \<Rightarrow> taxPayment" where
  "computeTaxPayment liab itc =
    (let remainIGST = h_igst itc; remainCGST = h_cgst itc;
         remainSGST = h_sgst itc; remainCESS = h_cess itc;
         payIGST = h_igst liab; payCGST = h_cgst liab;
         paySGST = h_sgst liab; payCESS = h_cess liab;
         igstAgainstIgst = min remainIGST payIGST;
         remainIGST = remainIGST - igstAgainstIgst;
         payIGST = payIGST - igstAgainstIgst;
         igstAgainstCgst = min remainIGST payCGST;
         remainIGST = remainIGST - igstAgainstCgst;
         payCGST = payCGST - igstAgainstCgst;
         igstAgainstSgst = min remainIGST paySGST;
         remainIGST = remainIGST - igstAgainstSgst;
         paySGST = paySGST - igstAgainstSgst;
         cgstAgainstCgst = min remainCGST payCGST;
         remainCGST = remainCGST - cgstAgainstCgst;
         payCGST = payCGST - cgstAgainstCgst;
         cgstAgainstIgst = min remainCGST payIGST;
         remainCGST = remainCGST - cgstAgainstIgst;
         payIGST = payIGST - cgstAgainstIgst;
         sgstAgainstSgst = min remainSGST paySGST;
         remainSGST = remainSGST - sgstAgainstSgst;
         paySGST = paySGST - sgstAgainstSgst;
         sgstAgainstIgst = min remainSGST payIGST;
         remainSGST = remainSGST - sgstAgainstIgst;
         payIGST = payIGST - sgstAgainstIgst;
         cessAgainstCess = min remainCESS payCESS;
         remainCESS = remainCESS - cessAgainstCess;
         payCESS = payCESS - cessAgainstCess;
         cashIGST = round2 (max 0 payIGST); cashCGST = round2 (max 0 payCGST);
         cashSGST = round2 (max 0 paySGST); cashCESS = round2 (max 0 payCESS);
         cashTotal = cashIGST + cashCGST + cashSGST + cashCESS;
         usedIGST = h_igst itc - remainIGST; usedCGST = h_cgst itc - remainCGST;
         usedSGST = h_sgst itc - remainSGST; usedCESS = h_cess itc - remainCESS;
         balIGST = round2 remainIGST; balCGST = round2 remainCGST;
         balSGST = round2 remainSGST; balCESS = round2 remainCESS
     in \<lparr> liability = liab,
          itcAvailable = itc,
          utilization = \<lparr> igstToIgst = igstAgainstIgst, igstToCgst = igstAgainstCgst,
            igstToSgst = igstAgainstSgst, cgstToCgst = cgstAgainstCgst,
            cgstToIgst = cgstAgainstIgst, sgstToSgst = sgstAgainstSgst,
            sgstToIgst = sgstAgainstIgst, cessTocess = cessAgainstCess \<rparr>,
          itcUtilized = \<lparr> h_igst = usedIGST, h_cgst = usedCGST, h_sgst = usedSGST,
            h_cess = usedCESS, h_total = usedIGST + usedCGST + usedSGST + usedCESS \<rparr>,
          cashPayable = \<lparr> h_igst = cashIGST, h_cgst = cashCGST, h_sgst = cashSGST,
            h_cess = cashCESS, h_total = cashTotal \<rparr>,
          itcBalance = \<lparr> h_igst = balIGST, h_cgst = balCGST, h_sgst = balSGST,
            h_cess = balCESS, h_total = balIGST + balCGST + balSGST + balCESS \<rparr>,
          totalLiability = h_igst liab + h_cgst liab + h_sgst liab + h_cess liab,
          netPayable = cashTotal,
          interestPayable = 0,
          lateFeeCGST = 0,
          lateFeeSGST = 0 \<rparr>)"

text \<open>The credit reported as used against each head's liability, summed over its sources.\<close>

definition utilizedAgainstIgst :: "taxPayment \<Rightarrow> real" where
  "utilizedAgainstIgst r =
     igstToIgst (utilization r) + cgstToIgst (utilization r) + sgstToIgst (utilization r)"

definition utilizedAgainstCgst :: "taxPayment \<Rightarrow> real" where
  "utilizedAgainstCgst r = igstToCgst (utilization r) + cgstToCgst (utilization r)"

definition utilizedAgainstSgst :: "taxPayment \<Rightarrow> real" where
  "utilizedAgainstSgst r = igstToSgst (utilization r) + sgstToSgst (utilization r)"

definition utilizedAgainstCess :: "taxPayment \<Rightarrow> real" where
  "utilizedAgainstCess r = cessTocess (utilization r)"

definition headsTwoDecimals :: "heads \<Rightarrow> bool" where
  "headsTwoDecimals h \<longleftrightarrow>
     twoDecimals (h_igst h) \<and> twoDecimals (h_cgst h) \<and> twoDecimals (h_sgst h) \<and>
     twoDecimals (h_cess h)"

definition headsNonNeg :: "heads \<Rightarrow> bool" where
  "headsNonNeg h \<longleftrightarrow> 0 \<le> h_igst h \<and> 0 \<le> h_cgst h \<and> 0 \<le> h_sgst h \<and> 0 \<le> h_cess h"

text \<open>Every amount of the four heads is at most \<open>b\<close> in absolute value.\<close>

definition headsWithin :: "real \<Rightarrow> heads \<Rightarrow> bool" where
  "headsWithin b h \<longleftrightarrow>
     \<bar>h_igst h\<bar> \<le> b \<and> \<bar>h_cgst h\<bar> \<le> b \<and> \<bar>h_sgst h\<bar> \<le> b \<and> \<bar>h_cess h\<bar> \<le> b"

definition outputsNonNeg :: "taxPayment \<Rightarrow> bool" where
  "outputsNonNeg r \<longleftrightarrow>
     0 \<le> igstToIgst (utilization r) \<and> 0 \<le> igstToCgst (utilization r) \<and>
     0 \<le> igstToSgst (utilization r) \<and> 0 \<le> cgstToCgst (utilization r) \<and>
     0 \<le> cgstToIgst (utilization r) \<and> 0 \<le> sgstToSgst (utilization r) \<and>
     0 \<le> sgstToIgst (utilization r) \<and> 0 \<le> cessTocess (utilization r) \<and>
     0 \<le> h_igst (itcUtilized r) \<and> 0 \<le> h_cgst (itcUtilized r) \<and>
     0 \<le> h_sgst (itcUtilized r) \<and> 0 \<le> h_cess (itcUtilized r) \<and>
     0 \<le> h_total (itcUtilized r) \<and>
     0 \<le> h_igst (cashPayable r) \<and> 0 \<le> h_cgst (cashPayable r) \<and>
     0 \<le> h_sgst (cashPayable r) \<and> 0 \<le> h_cess (cashPayable r) \<and>
     0 \<le> h_total (cashPayable r) \<and>
     0 \<le> h_igst (itcBalance r) \<and> 0 \<le> h_cgst (itcBalance r) \<and>
     0 \<le> h_sgst (itcBalance r) \<and> 0 \<le> h_cess (itcBalance r) \<and>
     0 \<le> h_total (itcBalance r) \<and>
     0 \<le> totalLiability r \<and> 0 \<le> netPayable r \<and> 0 \<le> interestPayable r \<and>
     0 \<le> lateFeeCGST r \<and> 0 \<le> lateFeeSGST r"

definition scenarioLiability :: heads where
  "scenarioLiability = \<lparr> h_igst = 0, h_cgst = 100, h_sgst = 100, h_cess = 0 \<rparr>"

definition scenarioCredit :: heads where
  "scenarioCredit = \<lparr> h_igst = 50, h_cgst = 60, h_sgst = 0, h_cess = 0 \<rparr>"

section \<open>Invoices, strings and JavaScript values\<close>

text \<open>
  An invoice is a loosely typed JavaScript object. The record has one optional field
  for every property the matching code reads; \<open>None\<close> is an absent property
  (\<open>undefined\<close> or \<open>null\<close>). The code treats the two absent values alike except where it
  prints \<open>invoiceNo\<close> in a template string; \<open>nullInvoiceNo\<close> tells them apart for that
  property: when \<open>invoiceNo\<close> is \<open>None\<close> it is true for \<open>null\<close> and false for
  \<open>undefined\<close>, and it is not read otherwise. Strings are ASCII: the non-ASCII white space that
  \<open>trim\<close> and \<open>\s\<close> also remove, and upper-casing of non-ASCII letters, are outside
  the model. A monetary property is a number when it is present. \<open>sourceTag\<close> is the
  property \<open>_source\<close> that \<open>buildInvoiceMap\<close> adds.
\<close>

record invoice =
  invoiceNo :: "string option"
  date :: "string option"
  customerGSTIN :: "string option"
  customerName :: "string option"
  sellerGSTIN :: "string option"
  supplierGSTIN :: "string option"
  taxableAmount :: "real option"
  cgst :: "real option"
  sgst :: "real option"
  igst :: "real option"
  totalAmount :: "real option"
  sourceTag :: "string option"
  nullInvoiceNo :: bool

definition emptyInvoice :: invoice where
  "emptyInvoice = \<lparr> invoiceNo = None, date = None, customerGSTIN = None, customerName = None,
     sellerGSTIN = None, supplierGSTIN = None, taxableAmount = None, cgst = None, sgst = None,
     igst = None, totalAmount = None, sourceTag = None, nullInvoiceNo = False \<rparr>"

text \<open>\<open>!s\<close> is false exactly for a present, non-empty string.\<close>

definition truthy :: "string option \<Rightarrow> bool" where
  "truthy s = (case s of None \<Rightarrow> False | Some t \<Rightarrow> t \<noteq> [])"

text \<open>\<open>s || ''\<close>.\<close>

definition orEmpty :: "string option \<Rightarrow> string" where
  "orEmpty s = (case s of None \<Rightarrow> [] | Some t \<Rightarrow> t)"

text \<open>\<open>parseFloat(x) || 0\<close> and \<open>x || 0\<close> on an absent or numeric property.\<close>

definition amountOrZero :: "real option \<Rightarrow> real" where
  "amountOrZero x = (case x of None \<Rightarrow> 0 | Some v \<Rightarrow> v)"

definition isSpace :: "char \<Rightarrow> bool" where
  "isSpace c \<longleftrightarrow> c = CHR '' '' \<or> c = CHR 0x09 \<or> c = CHR 0x0A \<or> c = CHR 0x0B \<or>
     c = CHR 0x0C \<or> c = CHR 0x0D"

definition isDigit :: "char \<Rightarrow> bool" where
  "isDigit c \<longleftrightarrow> c = CHR ''0'' \<or> c = CHR ''1'' \<or> c = CHR ''2'' \<or> c = CHR ''3'' \<or>
     c = CHR ''4'' \<or> c = CHR ''5'' \<or> c = CHR ''6'' \<or> c = CHR ''7'' \<or> c = CHR ''8'' \<or>
     c = CHR ''9''"

definition upperChar :: "char \<Rightarrow> char" where
  "upperChar c =
    (if c = CHR ''a'' then CHR ''A'' else if c = CHR ''b'' then CHR ''B''
     else if c = CHR ''c'' then CHR ''C'' else if c = CHR ''d'' then CHR ''D''
     else if c = CHR ''e'' then CHR ''E'' else if c = CHR ''f'' then CHR ''F''
     else if c = CHR ''g'' then CHR ''G'' else if c = CHR ''h'' then CHR ''H''
     else if c = CHR ''i'' then CHR ''I'' else if c = CHR ''j'' then CHR ''J''
     else if c = CHR ''k'' then CHR ''K'' else if c = CHR ''l'' then CHR ''L''
     else if c = CHR ''m'' then CHR ''M'' else if c = CHR ''n'' then CHR ''N''
     else if c = CHR ''o'' then CHR ''O'' else if c = CHR ''p'' then CHR ''P''
     else if c = CHR ''q'' then CHR ''Q'' else if c = CHR ''r'' then CHR ''R''
     else if c = CHR ''s'' then CHR ''S'' else if c = CHR ''t'' then CHR ''T''
     else if c = CHR ''u'' then CHR ''U'' else if c = CHR ''v'' then CHR ''V''
     else if c = CHR ''w'' then CHR ''W'' else if c = CHR ''x'' then CHR ''X''
     else if c = CHR ''y'' then CHR ''Y'' else if c = CHR ''z'' then CHR ''Z''
     else c)"

definition toUpperCase :: "string \<Rightarrow> string" where
  "toUpperCase s = map upperChar s"

definition trim :: "string \<Rightarrow> string" where
  "trim s = rev (dropWhile isSpace (rev (dropWhile isSpace s)))"

section \<open>Key normalizer and invoice index (reconciliation engine)\<close>

text \<open>
  The reconciliation engine (\<open>reconcileData\<close> and its helpers, required elsewhere as
  \<open>./reconciliation\<close>) is the second part of \<open>src/server/src/fileParser.js\<close>, from line
  843 on.
\<close>

text \<open>
  \<open>normalizeInvoiceNo\<close>: \<open>trim\<close>, \<open>toUpperCase\<close>, \<open>replace(/\s+/g, '')\<close> and
  \<open>replace(/^0+/, '')\<close>. Only white space and leading zeros are removed.
\<close>

definition normalizeInvoiceNo :: "string option \<Rightarrow> string" where
  "normalizeInvoiceNo invoiceNo' =
    (if \<not> truthy invoiceNo' then []
     else dropWhile (\<lambda>c. c = CHR ''0'')
            (filter (\<lambda>c. \<not> isSpace c) (toUpperCase (trim (orEmpty invoiceNo')))))"

text \<open>
  A JavaScript \<open>Map\<close> iterates its keys in the order of their first insertion; it is an
  association list with distinct keys in that order.
\<close>

type_synonym invoiceMap = "(string \<times> invoice list) list"

fun mapPush :: "string \<Rightarrow> invoice \<Rightarrow> invoiceMap \<Rightarrow> invoiceMap" where
  "mapPush key inv' [] = [(key, [inv'])]"
| "mapPush key inv' ((k, bucket) # m) =
     (if k = key then (k, bucket @ [inv']) # m else (k, bucket) # mapPush key inv' m)"

definition indexInvoice :: "string \<Rightarrow> invoiceMap \<Rightarrow> invoice \<Rightarrow> invoiceMap" where
  "indexInvoice source m inv' =
    (if \<not> truthy (invoiceNo inv') then m
     else mapPush (normalizeInvoiceNo (invoiceNo inv')) (inv'\<lparr>sourceTag := Some source\<rparr>) m)"

definition buildInvoiceMap :: "invoice list \<Rightarrow> string \<Rightarrow> invoiceMap" where
  "buildInvoiceMap invoices source = foldl (indexInvoice source) [] invoices"

section \<open>Fuzzy match\<close>

record fuzzyMatch =
  fuzzyInvoice :: invoice
  confidence :: real

text \<open>The confidence that one pass of the loop of \<open>findFuzzyMatch\<close> gives a candidate.\<close>

definition sameGSTIN :: "invoice \<Rightarrow> invoice \<Rightarrow> bool" where
  "sameGSTIN salesInv gstr1Inv \<longleftrightarrow>
     truthy (customerGSTIN salesInv) \<and> truthy (customerGSTIN gstr1Inv) \<and>
     toUpperCase (orEmpty (customerGSTIN salesInv)) =
       toUpperCase (orEmpty (customerGSTIN gstr1Inv))"

definition fuzzyConfidence :: "invoice \<Rightarrow> string \<Rightarrow> invoice \<Rightarrow> real" where
  "fuzzyConfidence salesInv key gstr1Inv =
    (let salesNo = normalizeInvoiceNo (invoiceNo salesInv);
         numericSales = filter isDigit salesNo;
         numericGSTR1 = filter isDigit key
     in if numericSales \<noteq> [] \<and> numericSales = numericGSTR1 \<and> sameGSTIN salesInv gstr1Inv
        then 9 / 10
        else if sameGSTIN salesInv gstr1Inv \<and>
                \<bar>amountOrZero (totalAmount salesInv) - amountOrZero (totalAmount gstr1Inv)\<bar> < 1
        then 7 / 10
        else 0)"

text \<open>
  The loop of \<open>findFuzzyMatch\<close> over the entries of the GSTR-1 map, with \<open>bestMatch\<close> and
  \<open>bestConfidence\<close> as accumulators. A bucket is never empty (lemma
  \<open>buildInvoiceMap_buckets\<close> below), so the case of an empty bucket, where the source
  would read a property of \<open>undefined\<close>, is not reached; the model skips the entry.
\<close>

fun fuzzyScan ::
  "invoice \<Rightarrow> invoiceMap \<Rightarrow> string set \<Rightarrow> fuzzyMatch option \<Rightarrow> real \<Rightarrow> fuzzyMatch option" where
  "fuzzyScan salesInv [] processedSet bestMatch bestConfidence = bestMatch"
| "fuzzyScan salesInv ((key, gstr1Invoices) # rest) processedSet bestMatch bestConfidence =
    (if key \<in> processedSet then fuzzyScan salesInv rest processedSet bestMatch bestConfidence
     else case gstr1Invoices of
       [] \<Rightarrow> fuzzyScan salesInv rest processedSet bestMatch bestConfidence
     | gstr1Inv # _ \<Rightarrow>
         if fuzzyConfidence salesInv key gstr1Inv > bestConfidence \<and>
            fuzzyConfidence salesInv key gstr1Inv \<ge> 7 / 10
         then fuzzyScan salesInv rest processedSet
                (Some \<lparr> fuzzyInvoice = gstr1Inv,
                   confidence = fuzzyConfidence salesInv key gstr1Inv \<rparr>)
                (fuzzyConfidence salesInv key gstr1Inv)
         else fuzzyScan salesInv rest processedSet bestMatch bestConfidence)"

definition findFuzzyMatch :: "invoice \<Rightarrow> invoiceMap \<Rightarrow> string set \<Rightarrow> fuzzyMatch option" where
  "findFuzzyMatch salesInv gstr1Map processedSet =
     fuzzyScan salesInv gstr1Map processedSet None 0"

section \<open>Field comparator\<close>

text \<open>
  \<open>normalizeDate\<close> matches the trimmed string against
  \<open>/^(\d{1,2})[-\/.](\d{1,2})[-\/.](\d{4})$/\<close> and
  \<open>/^(\d{4})[-\/.](\d{1,2})[-\/.](\d{1,2})$/\<close>. Both have the shape digits, separator,
  digits, separator, digits; \<open>splitDate\<close> cuts a string of that shape into its three
  runs of digits, and the two patterns differ in the lengths they accept.
\<close>

definition isDateSep :: "char \<Rightarrow> bool" where
  "isDateSep c \<longleftrightarrow> c = CHR ''-'' \<or> c = CHR ''/'' \<or> c = CHR ''.''"

definition splitDate :: "string \<Rightarrow> (string \<times> string \<times> string) option" where
  "splitDate s =
    (case dropWhile isDigit s of
       [] \<Rightarrow> None
     | c1 # r1 \<Rightarrow>
         if \<not> isDateSep c1 then None
         else case dropWhile isDigit r1 of
           [] \<Rightarrow> None
         | c2 # r2 \<Rightarrow>
             if isDateSep c2 \<and> list_all isDigit r2
             then Some (takeWhile isDigit s, takeWhile isDigit r1, r2)
             else None)"

definition padStart2 :: "string \<Rightarrow> string" where
  "padStart2 s = replicate (2 - length s) (CHR ''0'') @ s"

definition oneOrTwo :: "string \<Rightarrow> bool" where
  "oneOrTwo s \<longleftrightarrow> length s = 1 \<or> length s = 2"

definition normalizeDate :: "string option \<Rightarrow> string" where
  "normalizeDate dateStr =
    (if \<not> truthy dateStr then []
     else let str = trim (orEmpty dateStr) in
       case splitDate str of
         None \<Rightarrow> str
       | Some (a, b, c) \<Rightarrow>
           if oneOrTwo a \<and> oneOrTwo b \<and> length c = 4
           then c @ ''-'' @ padStart2 b @ ''-'' @ padStart2 a
           else if length a = 4 \<and> oneOrTwo b \<and> oneOrTwo c
           then a @ ''-'' @ padStart2 b @ ''-'' @ padStart2 c
           else str)"

datatype jsval = Num real | Str string | Undefined

definition strVal :: "string option \<Rightarrow> jsval" where
  "strVal s = (case s of None \<Rightarrow> Undefined | Some t \<Rightarrow> Str t)"

record discrepancy =
  field :: string
  label :: string
  salesValue :: jsval
  gstr1Value :: jsval
  difference :: jsval
  severity :: string

record comparison =
  comparedInvoiceNo :: "string option"
  salesInvoice :: invoice
  gstr1Invoice :: invoice
  discrepancies :: "discrepancy list"
  totalDifference :: real
  status :: string
  matchType :: string
  matchConfidence :: "real option"

text \<open>One pass of the loop over the five monetary fields of \<open>compareInvoices\<close>.\<close>

definition compareAmount ::
  "string \<Rightarrow> string \<Rightarrow> real option \<Rightarrow> real option \<Rightarrow> real \<Rightarrow> discrepancy list" where
  "compareAmount key label' salesField gstr1Field tolerance =
    (let salesVal = amountOrZero salesField;
         gstr1Val = amountOrZero gstr1Field;
         diff = salesVal - gstr1Val
     in if \<bar>diff\<bar> > tolerance
        then [\<lparr> field = key, label = label', salesValue = Num salesVal,
                gstr1Value = Num gstr1Val, difference = Num (round2 diff),
                severity = (if \<bar>diff\<bar> > 100 then ''high''
                            else if \<bar>diff\<bar> > 10 then ''medium'' else ''low'') \<rparr>]
        else [])"

definition compareGSTIN :: "invoice \<Rightarrow> invoice \<Rightarrow> discrepancy list" where
  "compareGSTIN salesInv gstr1Inv =
    (let salesGSTIN = trim (toUpperCase (orEmpty (customerGSTIN salesInv)));
         gstr1GSTIN = trim (toUpperCase (orEmpty (customerGSTIN gstr1Inv)))
     in if salesGSTIN \<noteq> [] \<and> gstr1GSTIN \<noteq> [] \<and> salesGSTIN \<noteq> gstr1GSTIN
        then [\<lparr> field = ''customerGSTIN'', label = ''Customer GSTIN'',
                salesValue = Str salesGSTIN, gstr1Value = Str gstr1GSTIN,
                difference = Str ''Mismatch'', severity = ''high'' \<rparr>]
        else [])"

definition compareDate :: "invoice \<Rightarrow> invoice \<Rightarrow> discrepancy list" where
  "compareDate salesInv gstr1Inv =
    (let salesDate = normalizeDate (date salesInv);
         gstr1Date = normalizeDate (date gstr1Inv)
     in if salesDate \<noteq> [] \<and> gstr1Date \<noteq> [] \<and> salesDate \<noteq> gstr1Date
        then [\<lparr> field = ''date'', label = ''Invoice Date'',
                salesValue = strVal (date salesInv), gstr1Value = strVal (date gstr1Inv),
                difference = Str ''Date mismatch'', severity = ''medium'' \<rparr>]
        else [])"

definition compareInvoices :: "invoice \<Rightarrow> invoice \<Rightarrow> real \<Rightarrow> comparison" where
  "compareInvoices salesInv gstr1Inv tolerance =
    (let discrepancies' =
           compareAmount ''taxableAmount'' ''Taxable Amount''
             (taxableAmount salesInv) (taxableAmount gstr1Inv) tolerance @
           compareAmount ''cgst'' ''CGST'' (cgst salesInv) (cgst gstr1Inv) tolerance @
           compareAmount ''sgst'' ''SGST'' (sgst salesInv) (sgst gstr1Inv) tolerance @
           compareAmount ''igst'' ''IGST'' (igst salesInv) (igst gstr1Inv) tolerance @
           compareAmount ''totalAmount'' ''Total Amount''
             (totalAmount salesInv) (totalAmount gstr1Inv) tolerance @
           compareGSTIN salesInv gstr1Inv @
           compareDate salesInv gstr1Inv
     in \<lparr> comparedInvoiceNo = invoiceNo salesInv,
          salesInvoice = salesInv,
          gstr1Invoice = gstr1Inv,
          discrepancies = discrepancies',
          totalDifference =
            round2 (amountOrZero (totalAmount salesInv) - amountOrZero (totalAmount gstr1Inv)),
          status = (if discrepancies' = [] then ''MATCHED'' else ''MISMATCHED''),
          matchType = ''exact'',
          matchConfidence = None \<rparr>)"

section \<open>Matcher (reconcileData)\<close>

record options =
  toleranceAmount :: "real option"
  tolerancePercent :: "real option"

record summary =
  totalSalesInvoices :: nat
  totalGSTR1Invoices :: nat
  matchedCount :: nat
  mismatchedCount :: nat
  missingSalesInGSTR1Count :: nat
  missingGSTR1InSalesCount :: nat
  totalDiscrepancyAmount :: real

record missingInvoice =
  missingRecord :: invoice
  missingStatus :: string
  missingSeverity :: string
  suggestion :: string

record duplicate =
  duplicateType :: string
  duplicateInvoiceNo :: "string option"
  duplicateCount :: nat
  duplicateInvoices :: "invoice list"

text \<open>
  The result object. \<open>matchedCount\<close> and the other counts are \<open>summary.matched\<close>,
  \<open>summary.mismatched\<close>, \<open>summary.missingSalesInGSTR1\<close> and
  \<open>summary.missingGSTR1InSales\<close>. The monthly and customer breakdowns and the
  validation issues are computed from the same lists afterwards and change none of the
  fields below; they are left out.
\<close>

record result =
  summary :: summary
  matched :: "comparison list"
  mismatched :: "comparison list"
  missingSalesInGSTR1 :: "missingInvoice list"
  missingGSTR1InSales :: "missingInvoice list"
  duplicates :: "duplicate list"

definition initialResult :: "invoice list \<Rightarrow> invoice list \<Rightarrow> result" where
  "initialResult salesData gstr1Data =
    \<lparr> summary = \<lparr> totalSalesInvoices = length salesData,
          totalGSTR1Invoices = length gstr1Data, matchedCount = 0, mismatchedCount = 0,
          missingSalesInGSTR1Count = 0, missingGSTR1InSalesCount = 0,
          totalDiscrepancyAmount = 0 \<rparr>,
      matched = [], mismatched = [], missingSalesInGSTR1 = [], missingGSTR1InSales = [],
      duplicates = [] \<rparr>"

text \<open>
  The statements that file a comparison under matched or mismatched; the source has
  them twice, once in the fuzzy and once in the exact branch.
\<close>

definition recordComparison :: "comparison \<Rightarrow> result \<Rightarrow> result" where
  "recordComparison comparison' res =
    (if discrepancies comparison' = []
     then res\<lparr> matched := matched res @ [comparison'],
            summary := (summary res)\<lparr> matchedCount := matchedCount (summary res) + 1 \<rparr> \<rparr>
     else res\<lparr> mismatched := mismatched res @ [comparison'],
            summary := (summary res)\<lparr>
              mismatchedCount := mismatchedCount (summary res) + 1,
              totalDiscrepancyAmount :=
                totalDiscrepancyAmount (summary res) + \<bar>totalDifference comparison'\<bar> \<rparr> \<rparr>)"

definition recordDuplicate :: "string \<Rightarrow> invoice list \<Rightarrow> result \<Rightarrow> result" where
  "recordDuplicate type invoices res =
    (case invoices of
       first # _ # _ \<Rightarrow>
         res\<lparr> duplicates := duplicates res @
           [\<lparr> duplicateType = type, duplicateInvoiceNo = invoiceNo first,
              duplicateCount = length invoices, duplicateInvoices = invoices \<rparr>] \<rparr>
     | _ \<Rightarrow> res)"

text \<open>The branch taken when the GSTR-1 map has no bucket for the key.\<close>

definition fuzzyBranch ::
  "invoiceMap \<Rightarrow> real \<Rightarrow> invoice \<Rightarrow> result \<times> string set \<Rightarrow> result \<times> string set" where
  "fuzzyBranch gstr1Map tolerance salesInv state =
    (case state of (res, processedGSTR1) \<Rightarrow>
       (case findFuzzyMatch salesInv gstr1Map processedGSTR1 of
          Some fuzzy \<Rightarrow>
            (recordComparison
               ((compareInvoices salesInv (fuzzyInvoice fuzzy) tolerance)
                  \<lparr> matchType := ''fuzzy'', matchConfidence := Some (confidence fuzzy) \<rparr>)
               res,
             insert (normalizeInvoiceNo (invoiceNo (fuzzyInvoice fuzzy))) processedGSTR1)
        | None \<Rightarrow>
            (res\<lparr> missingSalesInGSTR1 := missingSalesInGSTR1 res @
                [\<lparr> missingRecord = salesInv, missingStatus = ''MISSING_IN_GSTR1'',
                   missingSeverity = ''high'',
                   suggestion = ''Add this invoice to GSTR-1 filing'' \<rparr>],
               summary := (summary res)\<lparr> missingSalesInGSTR1Count :=
                 missingSalesInGSTR1Count (summary res) + 1 \<rparr> \<rparr>,
             processedGSTR1)))"

text \<open>The branch taken when the GSTR-1 map has a non-empty bucket for the key.\<close>

definition exactBranch ::
  "real \<Rightarrow> string \<Rightarrow> invoice \<Rightarrow> invoice list \<Rightarrow> result \<times> string set \<Rightarrow> result \<times> string set" where
  "exactBranch tolerance key salesInv gstr1Invoices state =
    (case state of (res, processedGSTR1) \<Rightarrow>
       (case gstr1Invoices of
          [] \<Rightarrow> (res, processedGSTR1)
        | gstr1Inv # _ \<Rightarrow>
            (recordComparison (compareInvoices salesInv gstr1Inv tolerance)
               (recordDuplicate ''gstr1_duplicate'' gstr1Invoices res),
             insert key processedGSTR1)))"

text \<open>
  The body of the loop over the entries of the sales map. A bucket of the sales map is
  never empty; the model leaves the state alone on an empty one.
\<close>

definition matchSalesEntry ::
  "invoiceMap \<Rightarrow> real \<Rightarrow> result \<times> string set \<Rightarrow> string \<times> invoice list \<Rightarrow> result \<times> string set" where
  "matchSalesEntry gstr1Map tolerance state entry =
    (case entry of (key, salesInvoices) \<Rightarrow>
       (case salesInvoices of
          [] \<Rightarrow> state
        | salesInv # _ \<Rightarrow>
            (let state' = (recordDuplicate ''sales_duplicate'' salesInvoices (fst state),
                           snd state)
             in case map_of gstr1Map key of
                  None \<Rightarrow> fuzzyBranch gstr1Map tolerance salesInv state'
                | Some [] \<Rightarrow> fuzzyBranch gstr1Map tolerance salesInv state'
                | Some (g # gs) \<Rightarrow> exactBranch tolerance key salesInv (g # gs) state')))"

text \<open>The second loop: every bucket whose key was never processed is reported.\<close>

definition reportMissing :: "invoice \<Rightarrow> missingInvoice" where
  "reportMissing inv' =
    \<lparr> missingRecord = inv', missingStatus = ''MISSING_IN_SALES'', missingSeverity = ''high'',
      suggestion = ''This invoice exists in GSTR-1 but not in sales register - verify or remove from GSTR-1'' \<rparr>"

definition missingEntry :: "string set \<Rightarrow> result \<Rightarrow> string \<times> invoice list \<Rightarrow> result" where
  "missingEntry processedGSTR1 res entry =
    (case entry of (key, gstr1Invoices) \<Rightarrow>
       if key \<in> processedGSTR1 then res
       else res\<lparr> missingGSTR1InSales := missingGSTR1InSales res @ map reportMissing gstr1Invoices,
              summary := (summary res)\<lparr> missingGSTR1InSalesCount :=
                missingGSTR1InSalesCount (summary res) + length gstr1Invoices \<rparr> \<rparr>)"

text \<open>\<open>options.toleranceAmount || 1\<close>: an absent tolerance and a tolerance of 0 both give 1.\<close>

definition effectiveTolerance :: "options \<Rightarrow> real" where
  "effectiveTolerance opts =
    (case toleranceAmount opts of None \<Rightarrow> 1 | Some t \<Rightarrow> if t = 0 then 1 else t)"

definition matchAll :: "invoice list \<Rightarrow> invoice list \<Rightarrow> real \<Rightarrow> result \<times> string set" where
  "matchAll salesData gstr1Data tolerance =
     foldl (matchSalesEntry (buildInvoiceMap gstr1Data ''gstr1'') tolerance)
       (initialResult salesData gstr1Data, {})
       (buildInvoiceMap salesData ''sales'')"

definition reconcileData :: "invoice list \<Rightarrow> invoice list \<Rightarrow> options \<Rightarrow> result" where
  "reconcileData salesData gstr1Data opts =
    (case matchAll salesData gstr1Data (effectiveTolerance opts) of
       (res, processedGSTR1) \<Rightarrow>
         (let res' = foldl (missingEntry processedGSTR1) res (buildInvoiceMap gstr1Data ''gstr1'')
          in res'\<lparr> summary := (summary res')\<lparr> totalDiscrepancyAmount :=
               round2 (totalDiscrepancyAmount (summary res')) \<rparr> \<rparr>))"

section \<open>Purchase-side reconciliation (gstr2Reconciliation.js)\<close>























record purchaseOptions =
  tolerance :: "real option"





section \<open>Notions used in the proofs\<close>

text \<open>The key under which \<open>buildInvoiceMap\<close> files an invoice.\<close>

definition indexKey :: "invoice \<Rightarrow> string" where
  "indexKey x = normalizeInvoiceNo (invoiceNo x)"

text \<open>What \<open>buildInvoiceMap\<close> guarantees of a map: distinct keys, no empty bucket, and in
  the bucket of a key only invoices that have an identifier and that key.\<close>

definition wellIndexed :: "invoiceMap \<Rightarrow> bool" where
  "wellIndexed m \<longleftrightarrow>
     distinct (map fst m) \<and>
     (\<forall>e \<in> set m. snd e \<noteq> [] \<and> (\<forall>x \<in> set (snd e). truthy (invoiceNo x) \<and> indexKey x = fst e))"

text \<open>
  The body of the first loop decides one of three things for an entry of the sales map:
  nothing (an empty bucket, which does not occur), a pair with a GSTR-1 invoice, with its
  match type, its confidence and the key it marks as processed, or no counterpart.
  \<open>decideEntry\<close> is that decision alone; lemma \<open>matchSalesEntry_decide\<close> shows that the
  body of the loop is the decision followed by the recording of its outcome.
\<close>

datatype outcome =
  NoSalesInvoice
| PairedWith invoice invoice string "real option" string
| NotFound invoice

definition decideEntry :: "invoiceMap \<Rightarrow> string set \<Rightarrow> string \<times> invoice list \<Rightarrow> outcome" where
  "decideEntry gstr1Map processedGSTR1 entry =
    (case snd entry of
       [] \<Rightarrow> NoSalesInvoice
     | salesInv # _ \<Rightarrow>
        (case map_of gstr1Map (fst entry) of
           Some (gstr1Inv # _) \<Rightarrow> PairedWith salesInv gstr1Inv ''exact'' None (fst entry)
         | _ \<Rightarrow>
            (case findFuzzyMatch salesInv gstr1Map processedGSTR1 of
               Some fuzzy \<Rightarrow>
                 PairedWith salesInv (fuzzyInvoice fuzzy) ''fuzzy'' (Some (confidence fuzzy))
                   (indexKey (fuzzyInvoice fuzzy))
             | None \<Rightarrow> NotFound salesInv)))"

text \<open>The duplicate reports that the body of the first loop files for an entry.\<close>

definition noteDuplicates :: "invoiceMap \<Rightarrow> string \<times> invoice list \<Rightarrow> result \<Rightarrow> result" where
  "noteDuplicates gstr1Map entry res =
    (case map_of gstr1Map (fst entry) of
       Some (g # gs) \<Rightarrow>
         recordDuplicate ''gstr1_duplicate'' (g # gs)
           (recordDuplicate ''sales_duplicate'' (snd entry) res)
     | _ \<Rightarrow> recordDuplicate ''sales_duplicate'' (snd entry) res)"

text \<open>The statements of the first loop that report a sales invoice as missing in GSTR-1.\<close>

definition addMissingSales :: "invoice \<Rightarrow> result \<Rightarrow> result" where
  "addMissingSales salesInv res =
     res\<lparr> missingSalesInGSTR1 := missingSalesInGSTR1 res @
           [\<lparr> missingRecord = salesInv, missingStatus = ''MISSING_IN_GSTR1'',
              missingSeverity = ''high'',
              suggestion = ''Add this invoice to GSTR-1 filing'' \<rparr>],
          summary := (summary res)\<lparr> missingSalesInGSTR1Count :=
            missingSalesInGSTR1Count (summary res) + 1 \<rparr> \<rparr>"

text \<open>The two assignments \<open>comparison.matchType = ...\<close> and \<open>comparison.matchConfidence = ...\<close>.\<close>

definition annotate :: "string \<Rightarrow> real option \<Rightarrow> comparison \<Rightarrow> comparison" where
  "annotate ty cf c = c\<lparr> matchType := ty, matchConfidence := cf \<rparr>"

text \<open>What holds of every comparison the first loop files.\<close>

definition goodPair :: "real \<Rightarrow> comparison \<Rightarrow> bool" where
  "goodPair tol c \<longleftrightarrow>
     truthy (invoiceNo (salesInvoice c)) \<and> truthy (invoiceNo (gstr1Invoice c)) \<and>
     discrepancies c = discrepancies (compareInvoices (salesInvoice c) (gstr1Invoice c) tol) \<and>
     (matchType c = ''exact'' \<and> matchConfidence c = None \<or>
      matchType c = ''fuzzy'' \<and>
        (matchConfidence c = Some (9 / 10) \<or> matchConfidence c = Some (7 / 10)))"

text \<open>The invariant of the first loop, on the result so far and the set of processed keys.\<close>

definition matcherInv :: "invoiceMap \<Rightarrow> real \<Rightarrow> result \<times> string set \<Rightarrow> bool" where
  "matcherInv G tol st \<longleftrightarrow>
     snd st = (\<lambda>c. indexKey (gstr1Invoice c)) ` (set (matched (fst st)) \<union> set (mismatched (fst st))) \<and>
     snd st \<subseteq> fst ` set G \<and>
     missingGSTR1InSales (fst st) = [] \<and>
     matchedCount (summary (fst st)) = length (matched (fst st)) \<and>
     mismatchedCount (summary (fst st)) = length (mismatched (fst st)) \<and>
     missingSalesInGSTR1Count (summary (fst st)) = length (missingSalesInGSTR1 (fst st)) \<and>
     missingGSTR1InSalesCount (summary (fst st)) = 0 \<and>
     (\<forall>c \<in> set (matched (fst st)). discrepancies c = [] \<and> goodPair tol c) \<and>
     (\<forall>c \<in> set (mismatched (fst st)). discrepancies c \<noteq> [] \<and> goodPair tol c) \<and>
     (\<forall>m \<in> set (missingSalesInGSTR1 (fst st)). truthy (invoiceNo (missingRecord m)))"





text \<open>The invoices of the buckets whose key was never processed, in the order of the map.\<close>

definition unprocessed :: "string set \<Rightarrow> invoiceMap \<Rightarrow> invoice list" where
  "unprocessed P G = concat (map snd (filter (\<lambda>e. fst e \<notin> P) G))"

text \<open>Every invoice that occurs in one of the four lists of a result.\<close>

definition resultInvoices :: "result \<Rightarrow> invoice list" where
  "resultInvoices r =
     map salesInvoice (matched r @ mismatched r) @
     map gstr1Invoice (matched r @ mismatched r) @
     map missingRecord (missingSalesInGSTR1 r @ missingGSTR1InSales r)"

text \<open>Every invoice that occurs in a bucket of a map.\<close>

definition indexedInvoices :: "invoiceMap \<Rightarrow> invoice list" where
  "indexedInvoices m = concat (map snd m)"






text \<open>What a comparison says about the pairing, without the discrepancies.\<close>

definition pairing :: "comparison \<Rightarrow> invoice \<times> invoice \<times> string \<times> real option" where
  "pairing c = (salesInvoice c, gstr1Invoice c, matchType c, matchConfidence c)"

text \<open>Two states of the first loop, reached with two tolerances, that agree on the pairing.\<close>

definition sameMatching :: "result \<times> string set \<Rightarrow> result \<times> string set \<Rightarrow> bool" where
  "sameMatching st st' \<longleftrightarrow>
     snd st = snd st' \<and>
     missingSalesInGSTR1 (fst st) = missingSalesInGSTR1 (fst st') \<and>
     missingGSTR1InSales (fst st) = missingGSTR1InSales (fst st') \<and>
     pairing ` set (matched (fst st) @ mismatched (fst st)) =
       pairing ` set (matched (fst st') @ mismatched (fst st')) \<and>
     length (matched (fst st)) + length (mismatched (fst st)) =
       length (matched (fst st')) + length (mismatched (fst st'))"

text \<open>Two such states of which the second has at least as many matched comparisons.\<close>

definition noFewerMatched :: "result \<times> string set \<Rightarrow> result \<times> string set \<Rightarrow> bool" where
  "noFewerMatched st st' \<longleftrightarrow>
     sameMatching st st' \<and> length (matched (fst st)) \<le> length (matched (fst st'))"

section \<open>Worked examples\<close>

text \<open>The options and invoices of the worked examples.\<close>

definition noOptions :: options where
  "noOptions = \<lparr> toleranceAmount = None, tolerancePercent = None \<rparr>"

definition withTolerance :: "real \<Rightarrow> options" where
  "withTolerance t = \<lparr> toleranceAmount = Some t, tolerancePercent = None \<rparr>"

definition sale :: "string \<Rightarrow> string \<Rightarrow> real \<Rightarrow> invoice" where
  "sale no gstin amount =
     emptyInvoice\<lparr> invoiceNo := Some no, customerGSTIN := Some gstin, totalAmount := Some amount \<rparr>"

definition unnumbered :: invoice where
  "unnumbered = emptyInvoice\<lparr> customerGSTIN := Some ''GSTIN1'', totalAmount := Some 1000 \<rparr>"

definition purchased :: "string \<Rightarrow> string \<Rightarrow> real \<Rightarrow> invoice" where
  "purchased no gstin amount =
     emptyInvoice\<lparr> invoiceNo := Some no, supplierGSTIN := Some gstin, totalAmount := Some amount \<rparr>"


section \<open>Properties of the waterfall\<close>

subsection \<open>Rounding\<close>

lemma twoDecimals_iff: "twoDecimals x \<longleftrightarrow> x * 100 \<in> \<int>"
proof
  assume "twoDecimals x"
  then have "x * 100 = of_int \<lfloor>x * 100 + 1 / 2\<rfloor>"
    by (simp add: twoDecimals_def round2_def field_simps)
  then show "x * 100 \<in> \<int>" by (metis Ints_of_int)
next
  assume "x * 100 \<in> \<int>"
  then obtain k :: int where k: "x * 100 = of_int k" by (auto elim: Ints_cases)
  have "\<lfloor>(of_int k :: real) + 1 / 2\<rfloor> = k" by linarith
  then show "twoDecimals x" using k by (simp add: twoDecimals_def round2_def)
qed

lemma twoDecimals_min: "twoDecimals a \<Longrightarrow> twoDecimals b \<Longrightarrow> twoDecimals (min a b)"
  by (simp add: min_def)

lemma twoDecimals_max0: "twoDecimals a \<Longrightarrow> twoDecimals (max 0 a)"
  by (simp add: max_def twoDecimals_iff)

lemma twoDecimals_diff: "twoDecimals a \<Longrightarrow> twoDecimals b \<Longrightarrow> twoDecimals (a - b)"
  by (simp add: twoDecimals_iff left_diff_distrib)

lemma round2_id: "twoDecimals x \<Longrightarrow> round2 x = x"
  by (simp add: twoDecimals_def)

lemma round2_mono: "x \<le> y \<Longrightarrow> round2 x \<le> round2 y"
  by (simp add: round2_def divide_right_mono floor_mono)

lemma round2_nonneg: "0 \<le> x \<Longrightarrow> 0 \<le> round2 x"
  by (simp add: round2_def)

lemma round2_close: "\<bar>round2 x - x\<bar> \<le> 1 / 200"
proof -
  define n :: real where "n = of_int \<lfloor>x * 100 + 1 / 2\<rfloor>"
  have "n \<le> x * 100 + 1 / 2" "x * 100 + 1 / 2 < n + 1"
    unfolding n_def by linarith+
  then have "n / 100 - x \<le> 1 / 200" "- (1 / 200) \<le> n / 100 - x"
    by linarith+
  then show ?thesis
    unfolding round2_def n_def [symmetric] by (intro abs_leI) linarith+
qed

lemma twoDecimals_add: "twoDecimals a \<Longrightarrow> twoDecimals b \<Longrightarrow> twoDecimals (a + b)"
  by (simp add: twoDecimals_iff distrib_right)

lemmas twoDecimals_closed =
  twoDecimals_min twoDecimals_diff twoDecimals_add twoDecimals_max0

lemmas waterfall_unfold =
  computeTaxPayment_def Let_def taxPayment.select_convs utilization.select_convs
  heads.select_convs headsTotal.select_convs

text \<open>
  Each reported utilization, written with the earlier ones: the eight steps of the source,
  read off the result.
\<close>

lemma used_steps:
  fixes l i
  defines "u \<equiv> utilization (computeTaxPayment l i)"
  shows "igstToIgst u = min (h_igst i) (h_igst l)"
    and "igstToCgst u = min (h_igst i - igstToIgst u) (h_cgst l)"
    and "igstToSgst u = min (h_igst i - igstToIgst u - igstToCgst u) (h_sgst l)"
    and "cgstToCgst u = min (h_cgst i) (h_cgst l - igstToCgst u)"
    and "cgstToIgst u = min (h_cgst i - cgstToCgst u) (h_igst l - igstToIgst u)"
    and "sgstToSgst u = min (h_sgst i) (h_sgst l - igstToSgst u)"
    and "sgstToIgst u =
           min (h_sgst i - sgstToSgst u) (h_igst l - igstToIgst u - cgstToIgst u)"
    and "cessTocess u = min (h_cess i) (h_cess l)"
  unfolding u_def by (simp_all only: waterfall_unfold)

lemma reported_outputs:
  fixes l i
  defines "r \<equiv> computeTaxPayment l i"
  defines "u \<equiv> utilization (computeTaxPayment l i)"
  shows "h_igst (cashPayable r) =
           round2 (max 0 (h_igst l - igstToIgst u - cgstToIgst u - sgstToIgst u))"
    and "h_cgst (cashPayable r) = round2 (max 0 (h_cgst l - igstToCgst u - cgstToCgst u))"
    and "h_sgst (cashPayable r) = round2 (max 0 (h_sgst l - igstToSgst u - sgstToSgst u))"
    and "h_cess (cashPayable r) = round2 (max 0 (h_cess l - cessTocess u))"
    and "h_total (cashPayable r) = h_igst (cashPayable r) + h_cgst (cashPayable r) +
           h_sgst (cashPayable r) + h_cess (cashPayable r)"
    and "h_igst (itcUtilized r) =
           h_igst i - (h_igst i - igstToIgst u - igstToCgst u - igstToSgst u)"
    and "h_cgst (itcUtilized r) = h_cgst i - (h_cgst i - cgstToCgst u - cgstToIgst u)"
    and "h_sgst (itcUtilized r) = h_sgst i - (h_sgst i - sgstToSgst u - sgstToIgst u)"
    and "h_cess (itcUtilized r) = h_cess i - (h_cess i - cessTocess u)"
    and "h_total (itcUtilized r) = h_igst (itcUtilized r) + h_cgst (itcUtilized r) +
           h_sgst (itcUtilized r) + h_cess (itcUtilized r)"
    and "h_igst (itcBalance r) = round2 (h_igst i - igstToIgst u - igstToCgst u - igstToSgst u)"
    and "h_cgst (itcBalance r) = round2 (h_cgst i - cgstToCgst u - cgstToIgst u)"
    and "h_sgst (itcBalance r) = round2 (h_sgst i - sgstToSgst u - sgstToIgst u)"
    and "h_cess (itcBalance r) = round2 (h_cess i - cessTocess u)"
    and "h_total (itcBalance r) = h_igst (itcBalance r) + h_cgst (itcBalance r) +
           h_sgst (itcBalance r) + h_cess (itcBalance r)"
    and "totalLiability r = h_igst l + h_cgst l + h_sgst l + h_cess l"
    and "netPayable r = h_total (cashPayable r)"
    and "interestPayable r = 0" and "lateFeeCGST r = 0" and "lateFeeSGST r = 0"
  unfolding r_def u_def by (simp_all only: waterfall_unfold)

lemma min_eqD: "(a::real) = min x y \<Longrightarrow> a \<le> x \<and> a \<le> y \<and> (a = x \<or> a = y)"
  by (auto simp: min_def)

lemmas waterfall_eval =
  used_steps reported_outputs round2_def twoDecimals_def headsTwoDecimals_def
  headsNonNeg_def outputsNonNeg_def utilizedAgainstIgst_def utilizedAgainstCgst_def
  utilizedAgainstSgst_def utilizedAgainstCess_def

text \<open>
  Claim C3 (waterfall conservation), as amended. For liabilities and net credits of at most
  \<open>10 ^ 9\<close> in absolute value, each head's liability differs from its cash payable plus
  the credit utilized against it by less than one hundredth, each head's available credit
  differs from its balance carried forward plus the credit utilized from it by less than
  one hundredth, and the totals over the four heads differ by less than four hundredths.
  When moreover every liability and every net credit is a whole number of hundredths, cash
  payable plus the credit utilized against a head, rounded to two decimals, is the head's
  liability, and balance plus the credit utilized from a head, rounded to two decimals, is
  the head's available credit. The differences come from the rounding of cash payable and
  balance at reporting, which the utilization figures do not undergo. The bound on the size
  of the amounts is not needed for exact amounts; within it the error of binary
  floating-point arithmetic stays far below the margin between a half and a whole
  hundredth.
\<close>

theorem waterfall_conservation:
  assumes "headsWithin (10 ^ 9) l" and "headsWithin (10 ^ 9) i"
  shows "(let r = computeTaxPayment l i in
     \<bar>h_igst l - (h_igst (cashPayable r) + utilizedAgainstIgst r)\<bar> < 1 / 100 \<and>
     \<bar>h_cgst l - (h_cgst (cashPayable r) + utilizedAgainstCgst r)\<bar> < 1 / 100 \<and>
     \<bar>h_sgst l - (h_sgst (cashPayable r) + utilizedAgainstSgst r)\<bar> < 1 / 100 \<and>
     \<bar>h_cess l - (h_cess (cashPayable r) + utilizedAgainstCess r)\<bar> < 1 / 100 \<and>
     \<bar>h_igst i - (h_igst (itcBalance r) + h_igst (itcUtilized r))\<bar> < 1 / 100 \<and>
     \<bar>h_cgst i - (h_cgst (itcBalance r) + h_cgst (itcUtilized r))\<bar> < 1 / 100 \<and>
     \<bar>h_sgst i - (h_sgst (itcBalance r) + h_sgst (itcUtilized r))\<bar> < 1 / 100 \<and>
     \<bar>h_cess i - (h_cess (itcBalance r) + h_cess (itcUtilized r))\<bar> < 1 / 100 \<and>
     \<bar>totalLiability r -
        (h_total (cashPayable r) + (utilizedAgainstIgst r + utilizedAgainstCgst r +
           utilizedAgainstSgst r + utilizedAgainstCess r))\<bar> < 4 / 100 \<and>
     \<bar>h_igst i + h_cgst i + h_sgst i + h_cess i -
        (h_total (itcBalance r) + h_total (itcUtilized r))\<bar> < 4 / 100 \<and>
     (headsTwoDecimals l \<and> headsTwoDecimals i \<longrightarrow>
        round2 (h_igst (cashPayable r) + utilizedAgainstIgst r) = h_igst l \<and>
        round2 (h_cgst (cashPayable r) + utilizedAgainstCgst r) = h_cgst l \<and>
        round2 (h_sgst (cashPayable r) + utilizedAgainstSgst r) = h_sgst l \<and>
        round2 (h_cess (cashPayable r) + utilizedAgainstCess r) = h_cess l \<and>
        round2 (h_igst (itcBalance r) + h_igst (itcUtilized r)) = h_igst i \<and>
        round2 (h_cgst (itcBalance r) + h_cgst (itcUtilized r)) = h_cgst i \<and>
        round2 (h_sgst (itcBalance r) + h_sgst (itcUtilized r)) = h_sgst i \<and>
        round2 (h_cess (itcBalance r) + h_cess (itcUtilized r)) = h_cess i))"
proof -
  define r where "r = computeTaxPayment l i"
  define u where "u = utilization r"
  note s = used_steps [of l i, folded r_def u_def]
  note o = reported_outputs [of l i, folded r_def u_def]
  define payI where "payI = h_igst l - igstToIgst u - cgstToIgst u - sgstToIgst u"
  define payC where "payC = h_cgst l - igstToCgst u - cgstToCgst u"
  define payS where "payS = h_sgst l - igstToSgst u - sgstToSgst u"
  define payE where "payE = h_cess l - cessTocess u"
  define remI where "remI = h_igst i - igstToIgst u - igstToCgst u - igstToSgst u"
  define remC where "remC = h_cgst i - cgstToCgst u - cgstToIgst u"
  define remS where "remS = h_sgst i - sgstToSgst u - sgstToIgst u"
  define remE where "remE = h_cess i - cessTocess u"
  have n: "0 \<le> payI" "0 \<le> payC" "0 \<le> payS" "0 \<le> payE"
    unfolding payI_def payC_def payS_def payE_def
    using min_eqD [OF s(7)] min_eqD [OF s(4)] min_eqD [OF s(6)] min_eqD [OF s(8)]
    by linarith+
  have c: "h_igst (cashPayable r) = round2 payI" "h_cgst (cashPayable r) = round2 payC"
    "h_sgst (cashPayable r) = round2 payS" "h_cess (cashPayable r) = round2 payE"
    unfolding o(1-4) payI_def [symmetric] payC_def [symmetric] payS_def [symmetric]
      payE_def [symmetric]
    using n by (simp_all only: max_absorb2)
  have b: "h_igst (itcBalance r) = round2 remI" "h_cgst (itcBalance r) = round2 remC"
    "h_sgst (itcBalance r) = round2 remS" "h_cess (itcBalance r) = round2 remE"
    unfolding o(11-14) remI_def remC_def remS_def remE_def by (rule refl)+
  have a: "utilizedAgainstIgst r = h_igst l - payI" "utilizedAgainstCgst r = h_cgst l - payC"
    "utilizedAgainstSgst r = h_sgst l - payS" "utilizedAgainstCess r = h_cess l - payE"
    unfolding utilizedAgainstIgst_def utilizedAgainstCgst_def utilizedAgainstSgst_def
      utilizedAgainstCess_def u_def [symmetric] payI_def payC_def payS_def payE_def
    by linarith+
  have f: "h_igst (itcUtilized r) = h_igst i - remI" "h_cgst (itcUtilized r) = h_cgst i - remC"
    "h_sgst (itcUtilized r) = h_sgst i - remS" "h_cess (itcUtilized r) = h_cess i - remE"
    unfolding o(6-9) remI_def remC_def remS_def remE_def by (rule refl)+
  have k: "\<bar>round2 payI - payI\<bar> \<le> 1 / 200" "\<bar>round2 payC - payC\<bar> \<le> 1 / 200"
    "\<bar>round2 payS - payS\<bar> \<le> 1 / 200" "\<bar>round2 payE - payE\<bar> \<le> 1 / 200"
    "\<bar>round2 remI - remI\<bar> \<le> 1 / 200" "\<bar>round2 remC - remC\<bar> \<le> 1 / 200"
    "\<bar>round2 remS - remS\<bar> \<le> 1 / 200" "\<bar>round2 remE - remE\<bar> \<le> 1 / 200"
    by (rule round2_close)+
  have d: "h_igst l - (h_igst (cashPayable r) + utilizedAgainstIgst r) = - (round2 payI - payI)"
    "h_cgst l - (h_cgst (cashPayable r) + utilizedAgainstCgst r) = - (round2 payC - payC)"
    "h_sgst l - (h_sgst (cashPayable r) + utilizedAgainstSgst r) = - (round2 payS - payS)"
    "h_cess l - (h_cess (cashPayable r) + utilizedAgainstCess r) = - (round2 payE - payE)"
    "h_igst i - (h_igst (itcBalance r) + h_igst (itcUtilized r)) = - (round2 remI - remI)"
    "h_cgst i - (h_cgst (itcBalance r) + h_cgst (itcUtilized r)) = - (round2 remC - remC)"
    "h_sgst i - (h_sgst (itcBalance r) + h_sgst (itcUtilized r)) = - (round2 remS - remS)"
    "h_cess i - (h_cess (itcBalance r) + h_cess (itcUtilized r)) = - (round2 remE - remE)"
    unfolding c b a f by linarith+
  have heads: "\<bar>h_igst l - (h_igst (cashPayable r) + utilizedAgainstIgst r)\<bar> < 1 / 100"
    "\<bar>h_cgst l - (h_cgst (cashPayable r) + utilizedAgainstCgst r)\<bar> < 1 / 100"
    "\<bar>h_sgst l - (h_sgst (cashPayable r) + utilizedAgainstSgst r)\<bar> < 1 / 100"
    "\<bar>h_cess l - (h_cess (cashPayable r) + utilizedAgainstCess r)\<bar> < 1 / 100"
    "\<bar>h_igst i - (h_igst (itcBalance r) + h_igst (itcUtilized r))\<bar> < 1 / 100"
    "\<bar>h_cgst i - (h_cgst (itcBalance r) + h_cgst (itcUtilized r))\<bar> < 1 / 100"
    "\<bar>h_sgst i - (h_sgst (itcBalance r) + h_sgst (itcUtilized r))\<bar> < 1 / 100"
    "\<bar>h_cess i - (h_cess (itcBalance r) + h_cess (itcUtilized r))\<bar> < 1 / 100"
    unfolding d abs_minus_cancel using k by linarith+
  have dl: "totalLiability r -
        (h_total (cashPayable r) + (utilizedAgainstIgst r + utilizedAgainstCgst r +
           utilizedAgainstSgst r + utilizedAgainstCess r)) =
      - (round2 payI - payI) - (round2 payC - payC) - (round2 payS - payS) - (round2 payE - payE)"
    unfolding o(5) o(16) c a by linarith
  have di: "h_igst i + h_cgst i + h_sgst i + h_cess i -
        (h_total (itcBalance r) + h_total (itcUtilized r)) =
      - (round2 remI - remI) - (round2 remC - remC) - (round2 remS - remS) - (round2 remE - remE)"
    unfolding o(10) o(15) b f by linarith
  have sum4: "\<bar>- a - b - c - d\<bar> < 4 / 100"
    if "\<bar>a\<bar> \<le> 1 / 200" "\<bar>b\<bar> \<le> 1 / 200" "\<bar>c\<bar> \<le> 1 / 200" "\<bar>d\<bar> \<le> 1 / 200"
    for a b c d :: real
    using that by linarith
  have totals: "\<bar>totalLiability r -
        (h_total (cashPayable r) + (utilizedAgainstIgst r + utilizedAgainstCgst r +
           utilizedAgainstSgst r + utilizedAgainstCess r))\<bar> < 4 / 100"
    "\<bar>h_igst i + h_cgst i + h_sgst i + h_cess i -
        (h_total (itcBalance r) + h_total (itcUtilized r))\<bar> < 4 / 100"
    unfolding dl di by (rule sum4 [OF k(1-4)], rule sum4 [OF k(5-8)])
  have exact: "round2 (h_igst (cashPayable r) + utilizedAgainstIgst r) = h_igst l \<and>
        round2 (h_cgst (cashPayable r) + utilizedAgainstCgst r) = h_cgst l \<and>
        round2 (h_sgst (cashPayable r) + utilizedAgainstSgst r) = h_sgst l \<and>
        round2 (h_cess (cashPayable r) + utilizedAgainstCess r) = h_cess l \<and>
        round2 (h_igst (itcBalance r) + h_igst (itcUtilized r)) = h_igst i \<and>
        round2 (h_cgst (itcBalance r) + h_cgst (itcUtilized r)) = h_cgst i \<and>
        round2 (h_sgst (itcBalance r) + h_sgst (itcUtilized r)) = h_sgst i \<and>
        round2 (h_cess (itcBalance r) + h_cess (itcUtilized r)) = h_cess i"
    if two: "headsTwoDecimals l" "headsTwoDecimals i"
  proof -
    have gl: "twoDecimals (h_igst l)" "twoDecimals (h_cgst l)" "twoDecimals (h_sgst l)"
      "twoDecimals (h_cess l)"
      using two(1) by (simp_all add: headsTwoDecimals_def)
    have gi: "twoDecimals (h_igst i)" "twoDecimals (h_cgst i)" "twoDecimals (h_sgst i)"
      "twoDecimals (h_cess i)"
      using two(2) by (simp_all add: headsTwoDecimals_def)
    have g1: "twoDecimals (igstToIgst u)"
      by (subst s(1)) (intro twoDecimals_closed gl gi)
    have g2: "twoDecimals (igstToCgst u)"
      by (subst s(2)) (intro twoDecimals_closed gl gi g1)
    have g3: "twoDecimals (igstToSgst u)"
      by (subst s(3)) (intro twoDecimals_closed gl gi g1 g2)
    have g4: "twoDecimals (cgstToCgst u)"
      by (subst s(4)) (intro twoDecimals_closed gl gi g2)
    have g5: "twoDecimals (cgstToIgst u)"
      by (subst s(5)) (intro twoDecimals_closed gl gi g1 g4)
    have g6: "twoDecimals (sgstToSgst u)"
      by (subst s(6)) (intro twoDecimals_closed gl gi g3)
    have g7: "twoDecimals (sgstToIgst u)"
      by (subst s(7)) (intro twoDecimals_closed gl gi g1 g5 g6)
    have g8: "twoDecimals (cessTocess u)"
      by (subst s(8)) (intro twoDecimals_closed gl gi)
    have p: "round2 payI = payI" "round2 payC = payC" "round2 payS = payS" "round2 payE = payE"
      "round2 remI = remI" "round2 remC = remC" "round2 remS = remS" "round2 remE = remE"
      unfolding payI_def payC_def payS_def payE_def remI_def remC_def remS_def remE_def
      by (intro round2_id twoDecimals_closed gl gi g1 g2 g3 g4 g5 g6 g7 g8)+
    have e: "h_igst (cashPayable r) + utilizedAgainstIgst r = h_igst l"
      "h_cgst (cashPayable r) + utilizedAgainstCgst r = h_cgst l"
      "h_sgst (cashPayable r) + utilizedAgainstSgst r = h_sgst l"
      "h_cess (cashPayable r) + utilizedAgainstCess r = h_cess l"
      "h_igst (itcBalance r) + h_igst (itcUtilized r) = h_igst i"
      "h_cgst (itcBalance r) + h_cgst (itcUtilized r) = h_cgst i"
      "h_sgst (itcBalance r) + h_sgst (itcUtilized r) = h_sgst i"
      "h_cess (itcBalance r) + h_cess (itcUtilized r) = h_cess i"
      unfolding c b a f p by linarith+
    show ?thesis
      unfolding e using gl gi by (simp only: round2_id simp_thms)
  qed
  show ?thesis
    unfolding Let_def r_def [symmetric] using heads totals exact by blast
qed

text \<open>
  IGST liability 0.07 against IGST credit 0.06, CGST liability 33.37 against CGST credit
  100.1, and SGST liability 100 without credit: the CGST balance is 66.72 and the SGST cash
  payable is 100.
\<close>

theorem waterfall_conservation_witness:
  "(let l = \<lparr> h_igst = 7 / 100, h_cgst = 3337 / 100, h_sgst = 100, h_cess = 0 \<rparr>;
        i = \<lparr> h_igst = 6 / 100, h_cgst = 1001 / 10, h_sgst = 0, h_cess = 0 \<rparr>;
        r = computeTaxPayment l i in
      headsWithin (10 ^ 9) l \<and> headsWithin (10 ^ 9) i \<and>
      headsTwoDecimals l \<and> headsTwoDecimals i \<and>
      h_cgst (itcBalance r) = 6672 / 100 \<and> h_sgst (cashPayable r) = 100 \<and>
      \<bar>h_cgst i - (h_cgst (itcBalance r) + h_cgst (itcUtilized r))\<bar> < 1 / 100 \<and>
      round2 (h_cgst (itcBalance r) + h_cgst (itcUtilized r)) = h_cgst i \<and>
      round2 (h_igst (cashPayable r) + utilizedAgainstIgst r) = h_igst l)"
proof -
  define l where "l = \<lparr> h_igst = 7 / 100, h_cgst = 3337 / 100, h_sgst = 100, h_cess = (0::real) \<rparr>"
  define i where "i = \<lparr> h_igst = 6 / 100, h_cgst = 1001 / 10, h_sgst = 0, h_cess = (0::real) \<rparr>"
  have h: "headsWithin (10 ^ 9) l" "headsWithin (10 ^ 9) i"
    by (simp_all add: l_def i_def headsWithin_def)
  have t: "headsTwoDecimals l" "headsTwoDecimals i"
    by (simp_all add: l_def i_def waterfall_eval)
  have e: "h_cgst (itcBalance (computeTaxPayment l i)) = 6672 / 100"
    "h_sgst (cashPayable (computeTaxPayment l i)) = 100"
    by (simp_all add: l_def i_def waterfall_eval)
  show ?thesis
    unfolding Let_def l_def [symmetric] i_def [symmetric]
    using waterfall_conservation [OF h, unfolded Let_def] h t e by blast
qed

text \<open>
  The equations themselves fail: an IGST liability of 0.001 with no credit is reported as
  cash payable 0 with nothing utilized.
\<close>

theorem waterfall_conservation_counterexample:
  "h_igst \<lparr> h_igst = 1 / 1000, h_cgst = 0, h_sgst = 0, h_cess = 0 \<rparr> \<noteq>
     h_igst (cashPayable (computeTaxPayment
       \<lparr> h_igst = 1 / 1000, h_cgst = 0, h_sgst = 0, h_cess = 0 \<rparr>
       \<lparr> h_igst = 0, h_cgst = 0, h_sgst = 0, h_cess = 0 \<rparr>)) +
     utilizedAgainstIgst (computeTaxPayment
       \<lparr> h_igst = 1 / 1000, h_cgst = 0, h_sgst = 0, h_cess = 0 \<rparr>
       \<lparr> h_igst = 0, h_cgst = 0, h_sgst = 0, h_cess = 0 \<rparr>)"
  by (simp add: waterfall_eval)

text \<open>
  Claim C4 (waterfall precedence), as amended. The SGST liability is not offset by CGST
  credit: with every other input fixed, the SGST cash payable and the credit reported
  against SGST liability (\<open>igstToSgst\<close>, \<open>sgstToSgst\<close>) are the same for every CGST
  credit \<open>x\<close>. Likewise the CGST cash payable and the credit reported against CGST
  liability (\<open>igstToCgst\<close>, \<open>cgstToCgst\<close>) are the same for every SGST credit \<open>y\<close>.
  IGST credit reported against CGST liability is positive only if \<open>igstToIgst\<close> is the
  whole IGST liability; the same holds for IGST credit reported against SGST liability
  provided the CGST liability is not negative.
\<close>

theorem waterfall_precedence:
  "(let r = computeTaxPayment l i; u = utilization r;
        rc = computeTaxPayment l (i\<lparr> h_cgst := x \<rparr>);
        rs = computeTaxPayment l (i\<lparr> h_sgst := y \<rparr>) in
     h_sgst (cashPayable rc) = h_sgst (cashPayable r) \<and>
     igstToSgst (utilization rc) = igstToSgst u \<and>
     sgstToSgst (utilization rc) = sgstToSgst u \<and>
     h_cgst (cashPayable rs) = h_cgst (cashPayable r) \<and>
     igstToCgst (utilization rs) = igstToCgst u \<and>
     cgstToCgst (utilization rs) = cgstToCgst u \<and>
     (0 < igstToCgst u \<longrightarrow> igstToIgst u = h_igst l) \<and>
     (0 \<le> h_cgst l \<longrightarrow> 0 < igstToSgst u \<longrightarrow> igstToIgst u = h_igst l))"
proof -
  define u where "u = utilization (computeTaxPayment l i)"
  define uc where "uc = utilization (computeTaxPayment l (i\<lparr> h_cgst := x \<rparr>))"
  define us where "us = utilization (computeTaxPayment l (i\<lparr> h_sgst := y \<rparr>))"
  note s = used_steps [of l i, folded u_def]
  note o = reported_outputs [of l i, folded u_def]
  note sc = used_steps [of l "i\<lparr> h_cgst := x \<rparr>", folded uc_def]
  note oc = reported_outputs [of l "i\<lparr> h_cgst := x \<rparr>", folded uc_def]
  note ss = used_steps [of l "i\<lparr> h_sgst := y \<rparr>", folded us_def]
  note os = reported_outputs [of l "i\<lparr> h_sgst := y \<rparr>", folded us_def]
  note m = min_eqD [OF s(1)] min_eqD [OF s(2)] min_eqD [OF s(3)]
  have c1: "igstToIgst uc = igstToIgst u"
    unfolding sc(1) s(1) by simp
  have c2: "igstToCgst uc = igstToCgst u"
    unfolding sc(2) s(2) c1 by simp
  have c3: "igstToSgst uc = igstToSgst u"
    unfolding sc(3) s(3) c1 c2 by simp
  have c6: "sgstToSgst uc = sgstToSgst u"
    unfolding sc(6) s(6) c3 by simp
  have cc: "h_sgst (cashPayable (computeTaxPayment l (i\<lparr> h_cgst := x \<rparr>))) =
      h_sgst (cashPayable (computeTaxPayment l i))"
    unfolding oc(3) o(3) c3 c6 by (rule refl)
  have s1: "igstToIgst us = igstToIgst u"
    unfolding ss(1) s(1) by simp
  have s2: "igstToCgst us = igstToCgst u"
    unfolding ss(2) s(2) s1 by simp
  have s4: "cgstToCgst us = cgstToCgst u"
    unfolding ss(4) s(4) s2 by simp
  have cs: "h_cgst (cashPayable (computeTaxPayment l (i\<lparr> h_sgst := y \<rparr>))) =
      h_cgst (cashPayable (computeTaxPayment l i))"
    unfolding os(2) o(2) s2 s4 by (rule refl)
  have 3: "0 < igstToCgst u \<longrightarrow> igstToIgst u = h_igst l"
    using m(1,2) by linarith
  have 4: "0 \<le> h_cgst l \<longrightarrow> 0 < igstToSgst u \<longrightarrow> igstToIgst u = h_igst l"
    using m by linarith
  show ?thesis
    unfolding Let_def u_def [symmetric] uc_def [symmetric] us_def [symmetric]
    using c3 c6 cc s2 s4 cs 3 4 by blast
qed

text \<open>
  IGST credit 35 against liabilities 10, 20 and 30: it pays the IGST liability, then the
  CGST liability, and 5 of the SGST liability, of which 20 remain payable in cash after the
  SGST credit of 5, whatever the CGST credit.
\<close>

theorem waterfall_precedence_witness:
  "(let l = \<lparr> h_igst = 10, h_cgst = 20, h_sgst = 30, h_cess = 0 \<rparr>;
        i = \<lparr> h_igst = 35, h_cgst = 2, h_sgst = 5, h_cess = 0 \<rparr>;
        r = computeTaxPayment l i; u = utilization r in
     (0::real) \<le> h_cgst l \<and> 0 < igstToCgst u \<and> 0 < igstToSgst u \<and> igstToIgst u = h_igst l \<and>
     h_sgst (cashPayable r) = 20 \<and>
     h_sgst (cashPayable (computeTaxPayment l (i\<lparr> h_cgst := 50 \<rparr>))) = h_sgst (cashPayable r) \<and>
     h_cgst (cashPayable (computeTaxPayment l (i\<lparr> h_sgst := 50 \<rparr>))) = h_cgst (cashPayable r))"
  using waterfall_precedence [of "\<lparr> h_igst = 10, h_cgst = 20, h_sgst = 30, h_cess = 0 \<rparr>"
      "\<lparr> h_igst = 35, h_cgst = 2, h_sgst = 5, h_cess = 0 \<rparr>" 50 50]
  by (simp add: waterfall_eval Let_def)

text \<open>
  With a negative CGST liability, step 2 takes a negative amount and so raises the
  remaining IGST credit; step 3 then spends it on SGST liability although only 5 of the
  IGST liability of 10 was offset.
\<close>

theorem waterfall_precedence_counterexample:
  "(let u = utilization (computeTaxPayment
        \<lparr> h_igst = 10, h_cgst = - 3, h_sgst = 4, h_cess = 0 \<rparr>
        \<lparr> h_igst = 5, h_cgst = 0, h_sgst = 0, h_cess = 0 \<rparr>) in
     0 < igstToSgst u \<and> igstToSgst u = 3 \<and> igstToIgst u = 5 \<and> igstToIgst u \<noteq> 10)"
  by (simp add: waterfall_eval)

text \<open>
  Claim C10 (bounds), as amended. For non-negative liabilities and net credits every
  numeric output is non-negative, the credit utilized from a head never exceeds that
  head's available credit, and the cash payable of a head never exceeds that head's
  liability rounded to two decimals; it never exceeds the liability itself when the
  liabilities are whole numbers of hundredths.
\<close>

theorem waterfall_bounds:
  assumes "headsNonNeg l" and "headsNonNeg i"
  shows "(let r = computeTaxPayment l i in
     outputsNonNeg r \<and>
     h_igst (itcUtilized r) \<le> h_igst i \<and> h_cgst (itcUtilized r) \<le> h_cgst i \<and>
     h_sgst (itcUtilized r) \<le> h_sgst i \<and> h_cess (itcUtilized r) \<le> h_cess i \<and>
     h_igst (cashPayable r) \<le> round2 (h_igst l) \<and>
     h_cgst (cashPayable r) \<le> round2 (h_cgst l) \<and>
     h_sgst (cashPayable r) \<le> round2 (h_sgst l) \<and>
     h_cess (cashPayable r) \<le> round2 (h_cess l) \<and>
     (headsTwoDecimals l \<longrightarrow>
        h_igst (cashPayable r) \<le> h_igst l \<and> h_cgst (cashPayable r) \<le> h_cgst l \<and>
        h_sgst (cashPayable r) \<le> h_sgst l \<and> h_cess (cashPayable r) \<le> h_cess l))"
proof -
  define r where "r = computeTaxPayment l i"
  define u where "u = utilization r"
  note s = used_steps [of l i, folded r_def u_def]
  note o = reported_outputs [of l i, folded r_def u_def]
  note m = min_eqD [OF s(1)] min_eqD [OF s(2)] min_eqD [OF s(3)] min_eqD [OF s(4)]
    min_eqD [OF s(5)] min_eqD [OF s(6)] min_eqD [OF s(7)] min_eqD [OF s(8)]
  have l: "0 \<le> h_igst l" "0 \<le> h_cgst l" "0 \<le> h_sgst l" "0 \<le> h_cess l"
    using assms(1) by (simp_all add: headsNonNeg_def)
  have i: "0 \<le> h_igst i" "0 \<le> h_cgst i" "0 \<le> h_sgst i" "0 \<le> h_cess i"
    using assms(2) by (simp_all add: headsNonNeg_def)
  have a1: "0 \<le> igstToIgst u" using m(1) l i by linarith
  have a2: "0 \<le> igstToCgst u" using m(1,2) l i by linarith
  have a3: "0 \<le> igstToSgst u" using m(2,3) l i by linarith
  have a4: "0 \<le> cgstToCgst u" using m(2,4) l i by linarith
  have a5: "0 \<le> cgstToIgst u" using m(1,4,5) l i by linarith
  have a6: "0 \<le> sgstToSgst u" using m(3,6) l i by linarith
  have a7: "0 \<le> sgstToIgst u" using m(5,6,7) l i by linarith
  have a8: "0 \<le> cessTocess u" using m(8) l i by linarith
  have p: "0 \<le> h_igst l - igstToIgst u - cgstToIgst u - sgstToIgst u"
    "0 \<le> h_cgst l - igstToCgst u - cgstToCgst u"
    "0 \<le> h_sgst l - igstToSgst u - sgstToSgst u"
    "0 \<le> h_cess l - cessTocess u"
    using m(7) m(4) m(6) m(8) by linarith+
  have q: "0 \<le> h_igst i - igstToIgst u - igstToCgst u - igstToSgst u"
    "0 \<le> h_cgst i - cgstToCgst u - cgstToIgst u"
    "0 \<le> h_sgst i - sgstToSgst u - sgstToIgst u"
    "0 \<le> h_cess i - cessTocess u"
    using m(3) m(5) m(7) m(8) by linarith+
  have c0: "0 \<le> h_igst (cashPayable r)" "0 \<le> h_cgst (cashPayable r)"
    "0 \<le> h_sgst (cashPayable r)" "0 \<le> h_cess (cashPayable r)"
    unfolding o(1-4) by (rule round2_nonneg, rule max.cobounded1)+
  have b0: "0 \<le> h_igst (itcBalance r)" "0 \<le> h_cgst (itcBalance r)"
    "0 \<le> h_sgst (itcBalance r)" "0 \<le> h_cess (itcBalance r)"
    unfolding o(11-14) by (rule round2_nonneg, rule q)+
  have u0: "0 \<le> h_igst (itcUtilized r)" "0 \<le> h_cgst (itcUtilized r)"
    "0 \<le> h_sgst (itcUtilized r)" "0 \<le> h_cess (itcUtilized r)"
    unfolding o(6-9) using a1 a2 a3 a4 a5 a6 a7 a8 by linarith+
  have ule: "h_igst (itcUtilized r) \<le> h_igst i" "h_cgst (itcUtilized r) \<le> h_cgst i"
    "h_sgst (itcUtilized r) \<le> h_sgst i" "h_cess (itcUtilized r) \<le> h_cess i"
    unfolding o(6-9) using q by linarith+
  have cle: "h_igst (cashPayable r) \<le> round2 (h_igst l)"
    "h_cgst (cashPayable r) \<le> round2 (h_cgst l)"
    "h_sgst (cashPayable r) \<le> round2 (h_sgst l)"
    "h_cess (cashPayable r) \<le> round2 (h_cess l)"
    unfolding o(1-4) using p a1 a2 a3 a4 a5 a6 a7 a8
    by (intro round2_mono; simp only: max_absorb2; linarith)+
  have nn: "outputsNonNeg r"
    unfolding outputsNonNeg_def u_def [symmetric] o(5) o(10) o(15) o(16) o(17) o(18) o(19) o(20)
    using a1 a2 a3 a4 a5 a6 a7 a8 c0 b0 u0 l by (intro conjI) linarith+
  have g: "headsTwoDecimals l \<longrightarrow>
        h_igst (cashPayable r) \<le> h_igst l \<and> h_cgst (cashPayable r) \<le> h_cgst l \<and>
        h_sgst (cashPayable r) \<le> h_sgst l \<and> h_cess (cashPayable r) \<le> h_cess l"
    using cle by (simp add: headsTwoDecimals_def twoDecimals_def)
  show ?thesis
    unfolding Let_def r_def [symmetric] using nn ule cle g by blast
qed

theorem waterfall_bounds_witness:
  "headsNonNeg scenarioLiability \<and> headsNonNeg scenarioCredit \<and>
   headsTwoDecimals scenarioLiability \<and>
   outputsNonNeg (computeTaxPayment scenarioLiability scenarioCredit) \<and>
   h_cgst (itcUtilized (computeTaxPayment scenarioLiability scenarioCredit)) = 50 \<and>
   h_cgst (itcUtilized (computeTaxPayment scenarioLiability scenarioCredit))
     \<le> h_cgst scenarioCredit \<and>
   h_sgst (cashPayable (computeTaxPayment scenarioLiability scenarioCredit))
     \<le> h_sgst scenarioLiability"
proof -
  have h: "headsNonNeg scenarioLiability" "headsNonNeg scenarioCredit"
    "headsTwoDecimals scenarioLiability"
    by (simp_all add: scenarioLiability_def scenarioCredit_def waterfall_eval)
  have e: "h_cgst (itcUtilized (computeTaxPayment scenarioLiability scenarioCredit)) = 50"
    by (simp add: scenarioLiability_def scenarioCredit_def waterfall_eval)
  show ?thesis
    using waterfall_bounds [OF h(1,2)] h e by (simp add: Let_def)
qed

text \<open>
  An IGST liability of 0.006 with no credit is reported as cash payable 0.01, which is
  more than the liability.
\<close>

theorem waterfall_bounds_counterexample:
  "headsNonNeg \<lparr> h_igst = 6 / 1000, h_cgst = 0, h_sgst = 0, h_cess = 0 \<rparr> \<and>
   headsNonNeg \<lparr> h_igst = 0, h_cgst = 0, h_sgst = 0, h_cess = 0 \<rparr> \<and>
   h_igst (cashPayable (computeTaxPayment
       \<lparr> h_igst = 6 / 1000, h_cgst = 0, h_sgst = 0, h_cess = 0 \<rparr>
       \<lparr> h_igst = 0, h_cgst = 0, h_sgst = 0, h_cess = 0 \<rparr>)) = 1 / 100 \<and>
   \<not> h_igst (cashPayable (computeTaxPayment
       \<lparr> h_igst = 6 / 1000, h_cgst = 0, h_sgst = 0, h_cess = 0 \<rparr>
       \<lparr> h_igst = 0, h_cgst = 0, h_sgst = 0, h_cess = 0 \<rparr>))
     \<le> h_igst \<lparr> h_igst = 6 / 1000, h_cgst = 0, h_sgst = 0, h_cess = 0 \<rparr>"
  by (simp add: waterfall_eval)

section \<open>Properties of the matcher\<close>

lemmas matcher_eval =
  noOptions_def withTolerance_def sale_def unnumbered_def purchased_def
  emptyInvoice_def truthy_def orEmpty_def amountOrZero_def isSpace_def isDigit_def upperChar_def
  toUpperCase_def trim_def normalizeInvoiceNo_def indexInvoice_def buildInvoiceMap_def
  sameGSTIN_def fuzzyConfidence_def findFuzzyMatch_def isDateSep_def splitDate_def padStart2_def
  oneOrTwo_def normalizeDate_def strVal_def compareAmount_def compareGSTIN_def compareDate_def
  compareInvoices_def initialResult_def recordComparison_def recordDuplicate_def fuzzyBranch_def
  exactBranch_def matchSalesEntry_def reportMissing_def missingEntry_def effectiveTolerance_def
  matchAll_def reconcileData_def round2_def Let_def indexKey_def resultInvoices_def
  indexedInvoices_def pairing_def


lemma compareInvoices_exact [simp]:
  "matchType (compareInvoices s g tol) = ''exact''"
  "matchConfidence (compareInvoices s g tol) = None"
  "salesInvoice (compareInvoices s g tol) = s"
  "gstr1Invoice (compareInvoices s g tol) = g"
  by (simp_all add: compareInvoices_def Let_def)

lemma matchSalesEntry_decide:
  "matchSalesEntry gstr1Map tol (res, P) entry =
    (case decideEntry gstr1Map P entry of
       NoSalesInvoice \<Rightarrow> (res, P)
     | PairedWith s g ty cf k \<Rightarrow>
         (recordComparison (annotate ty cf (compareInvoices s g tol))
            (noteDuplicates gstr1Map entry res), insert k P)
     | NotFound s \<Rightarrow> (addMissingSales s (noteDuplicates gstr1Map entry res), P))"
proof -
  have a: "(compareInvoices s g tol)\<lparr> matchType := ''exact'', matchConfidence := None \<rparr> =
      compareInvoices s g tol" for s g
    by (simp add: compareInvoices_def Let_def)
  show ?thesis
    by (cases entry)
      (simp add: matchSalesEntry_def decideEntry_def noteDuplicates_def fuzzyBranch_def
        exactBranch_def addMissingSales_def a indexKey_def annotate_def
        split: list.split option.split)
qed

subsection \<open>What each recording step changes\<close>

lemma recordDuplicate_fields [simp]:
  "matched (recordDuplicate ty xs res) = matched res"
  "mismatched (recordDuplicate ty xs res) = mismatched res"
  "missingSalesInGSTR1 (recordDuplicate ty xs res) = missingSalesInGSTR1 res"
  "missingGSTR1InSales (recordDuplicate ty xs res) = missingGSTR1InSales res"
  "summary (recordDuplicate ty xs res) = summary res"
  by (simp_all add: recordDuplicate_def split: list.split)

lemma noteDuplicates_fields [simp]:
  "matched (noteDuplicates G e res) = matched res"
  "mismatched (noteDuplicates G e res) = mismatched res"
  "missingSalesInGSTR1 (noteDuplicates G e res) = missingSalesInGSTR1 res"
  "missingGSTR1InSales (noteDuplicates G e res) = missingGSTR1InSales res"
  "summary (noteDuplicates G e res) = summary res"
  by (simp_all add: noteDuplicates_def split: option.split list.split)

lemma recordComparison_fields:
  "matched (recordComparison c res) =
     (if discrepancies c = [] then matched res @ [c] else matched res)"
  "mismatched (recordComparison c res) =
     (if discrepancies c = [] then mismatched res else mismatched res @ [c])"
  "missingSalesInGSTR1 (recordComparison c res) = missingSalesInGSTR1 res"
  "missingGSTR1InSales (recordComparison c res) = missingGSTR1InSales res"
  "matchedCount (summary (recordComparison c res)) =
     (if discrepancies c = [] then matchedCount (summary res) + 1 else matchedCount (summary res))"
  "mismatchedCount (summary (recordComparison c res)) =
     (if discrepancies c = [] then mismatchedCount (summary res)
      else mismatchedCount (summary res) + 1)"
  "missingSalesInGSTR1Count (summary (recordComparison c res)) =
     missingSalesInGSTR1Count (summary res)"
  "missingGSTR1InSalesCount (summary (recordComparison c res)) =
     missingGSTR1InSalesCount (summary res)"
  by (simp_all add: recordComparison_def)

lemma addMissingSales_fields:
  "matched (addMissingSales s res) = matched res"
  "mismatched (addMissingSales s res) = mismatched res"
  "map missingRecord (missingSalesInGSTR1 (addMissingSales s res)) =
     map missingRecord (missingSalesInGSTR1 res) @ [s]"
  "length (missingSalesInGSTR1 (addMissingSales s res)) = Suc (length (missingSalesInGSTR1 res))"
  "missingGSTR1InSales (addMissingSales s res) = missingGSTR1InSales res"
  "matchedCount (summary (addMissingSales s res)) = matchedCount (summary res)"
  "mismatchedCount (summary (addMissingSales s res)) = mismatchedCount (summary res)"
  "missingSalesInGSTR1Count (summary (addMissingSales s res)) =
     missingSalesInGSTR1Count (summary res) + 1"
  "missingGSTR1InSalesCount (summary (addMissingSales s res)) =
     missingGSTR1InSalesCount (summary res)"
  by (simp_all add: addMissingSales_def)

lemma annotate_fields [simp]:
  "discrepancies (annotate ty cf c) = discrepancies c"
  "matchType (annotate ty cf c) = ty"
  "matchConfidence (annotate ty cf c) = cf"
  "salesInvoice (annotate ty cf c) = salesInvoice c"
  "gstr1Invoice (annotate ty cf c) = gstr1Invoice c"
  by (simp_all add: annotate_def)

subsection \<open>The invoice index\<close>

lemma mapPush_keys:
  "map fst (mapPush k v m) = (if k \<in> set (map fst m) then map fst m else map fst m @ [k])"
  by (induction m) force+

lemma mapPush_entries:
  "e \<in> set (mapPush k v m) \<Longrightarrow>
     e \<in> set m \<or> e = (k, [v]) \<or> (\<exists>b. (k, b) \<in> set m \<and> e = (k, b @ [v]))"
  by (induction m) (auto split: if_splits)

lemma wellIndexed_mapPush:
  assumes "wellIndexed m" and "truthy (invoiceNo v)" and "indexKey v = k"
  shows "wellIndexed (mapPush k v m)"
proof -
  have d: "distinct (map fst (mapPush k v m))"
    using assms(1) by (simp add: mapPush_keys wellIndexed_def)
  have "snd e \<noteq> [] \<and> (\<forall>x \<in> set (snd e). truthy (invoiceNo x) \<and> indexKey x = fst e)"
    if "e \<in> set (mapPush k v m)" for e
    using mapPush_entries [OF that] assms by (auto simp: wellIndexed_def)
  with d show ?thesis by (simp add: wellIndexed_def)
qed

lemma wellIndexed_indexInvoice:
  "wellIndexed m \<Longrightarrow> wellIndexed (indexInvoice src m x)"
  by (simp add: indexInvoice_def wellIndexed_mapPush indexKey_def)

lemma wellIndexed_foldl:
  "wellIndexed m \<Longrightarrow> wellIndexed (foldl (indexInvoice src) m xs)"
  by (induction xs arbitrary: m) (simp_all add: wellIndexed_indexInvoice)

lemma buildInvoiceMap_buckets: "wellIndexed (buildInvoiceMap xs src)"
  unfolding buildInvoiceMap_def by (rule wellIndexed_foldl) (simp add: wellIndexed_def)



subsection \<open>The fuzzy scan\<close>

lemma fuzzyConfidence_values:
  "fuzzyConfidence s k g = 9 / 10 \<or> fuzzyConfidence s k g = 7 / 10 \<or> fuzzyConfidence s k g = 0"
  by (simp add: fuzzyConfidence_def Let_def)

lemma fuzzyScan_Some:
  assumes "fuzzyScan s m P best bc = Some f"
  shows "best = Some f \<or>
     (\<exists>k g gs. (k, g # gs) \<in> set m \<and> k \<notin> P \<and> fuzzyInvoice f = g \<and>
        confidence f = fuzzyConfidence s k g \<and> 7 / 10 \<le> confidence f)"
  using assms
proof (induction s m P best bc rule: fuzzyScan.induct)
  case (1 salesInv processedSet bestMatch bestConfidence)
  then show ?case by simp
next
  case (2 salesInv key gstr1Invoices rest processedSet bestMatch bestConfidence)
  let ?goal = "\<lambda>m. bestMatch = Some f \<or>
     (\<exists>k g gs. (k, g # gs) \<in> set m \<and> k \<notin> processedSet \<and> fuzzyInvoice f = g \<and>
        confidence f = fuzzyConfidence salesInv k g \<and> 7 / 10 \<le> confidence f)"
  have weaken: "?goal rest \<Longrightarrow> ?goal ((key, gstr1Invoices) # rest)"
    by auto
  show ?case
  proof (cases "key \<in> processedSet")
    case True
    with "2.prems" "2.IH"(1) have "?goal rest" by simp
    then show ?thesis by (rule weaken)
  next
    case False
    show ?thesis
    proof (cases gstr1Invoices)
      case Nil
      with False "2.prems" "2.IH"(2) have "?goal rest" by simp
      then show ?thesis by (rule weaken)
    next
      case (Cons g gs)
      let ?c = "fuzzyConfidence salesInv key g"
      show ?thesis
      proof (cases "?c > bestConfidence \<and> ?c \<ge> 7 / 10")
        case True
        with False Cons "2.prems"
        have run: "fuzzyScan salesInv rest processedSet
            (Some \<lparr> fuzzyInvoice = g, confidence = ?c \<rparr>) ?c = Some f"
          by simp
        from "2.IH"(3) [OF False Cons True run]
        have "Some \<lparr> fuzzyInvoice = g, confidence = ?c \<rparr> = Some f \<or>
          (\<exists>k g gs. (k, g # gs) \<in> set rest \<and> k \<notin> processedSet \<and> fuzzyInvoice f = g \<and>
            confidence f = fuzzyConfidence salesInv k g \<and> 7 / 10 \<le> confidence f)" .
        then show ?thesis
        proof
          assume "Some \<lparr> fuzzyInvoice = g, confidence = ?c \<rparr> = Some f"
          then have "fuzzyInvoice f = g" "confidence f = ?c" by auto
          with True False Cons show ?thesis by auto
        next
          assume "\<exists>k g gs. (k, g # gs) \<in> set rest \<and> k \<notin> processedSet \<and> fuzzyInvoice f = g \<and>
            confidence f = fuzzyConfidence salesInv k g \<and> 7 / 10 \<le> confidence f"
          then show ?thesis by auto
        qed
      next
        case no: False
        with False Cons "2.prems"
        have run: "fuzzyScan salesInv rest processedSet bestMatch bestConfidence = Some f"
          by auto
        from "2.IH"(4) [OF False Cons no run] have "?goal rest" .
        then show ?thesis by (rule weaken)
      qed
    qed
  qed
qed

lemma findFuzzyMatch_Some:
  assumes "findFuzzyMatch s m P = Some f"
  shows "\<exists>k gs. (k, fuzzyInvoice f # gs) \<in> set m \<and> k \<notin> P \<and>
     confidence f = fuzzyConfidence s k (fuzzyInvoice f) \<and>
     (confidence f = 9 / 10 \<or> confidence f = 7 / 10)"
proof -
  from fuzzyScan_Some [OF assms [unfolded findFuzzyMatch_def]]
  obtain k g gs where *: "(k, g # gs) \<in> set m" "k \<notin> P" "fuzzyInvoice f = g"
    "confidence f = fuzzyConfidence s k g" "7 / 10 \<le> confidence f"
    by auto
  have "confidence f = 9 / 10 \<or> confidence f = 7 / 10"
    using fuzzyConfidence_values [of s k g] * by auto
  with * show ?thesis by auto
qed

subsection \<open>The decision taken for one entry of the sales map\<close>

lemma wellIndexed_entry:
  assumes "wellIndexed m" and "(k, b) \<in> set m"
  shows "b \<noteq> []" and "x \<in> set b \<Longrightarrow> truthy (invoiceNo x) \<and> indexKey x = k"
  using assms by (auto simp: wellIndexed_def)

lemma decideEntry_not_skipped:
  assumes "wellIndexed S" and "e \<in> set S"
  shows "decideEntry G P e \<noteq> NoSalesInvoice"
proof -
  have "snd e \<noteq> []" using assms by (auto simp: wellIndexed_def)
  then show ?thesis
    by (auto simp: decideEntry_def split: list.split option.split)
qed

lemma decideEntry_sales:
  assumes "wellIndexed S" and "e \<in> set S"
    and "decideEntry G P e = PairedWith s g ty cf k \<or> decideEntry G P e = NotFound s"
  shows "truthy (invoiceNo s)"
proof -
  have "s \<in> set (snd e)"
    using assms(3) by (auto simp: decideEntry_def split: list.splits option.splits)
  then show ?thesis
    using wellIndexed_entry(2) [OF assms(1), of "fst e" "snd e" s] assms(2) by simp
qed

lemma decideEntry_paired:
  assumes "wellIndexed G" and "decideEntry G P e = PairedWith s g ty cf k"
  shows "truthy (invoiceNo g)" and "indexKey g = k" and "k \<in> fst ` set G"
    and "ty = ''exact'' \<and> cf = None \<or>
         ty = ''fuzzy'' \<and> (cf = Some (9 / 10) \<or> cf = Some (7 / 10))"
proof -
  have "\<exists>gs. (k, g # gs) \<in> set G \<and>
      (ty = ''exact'' \<and> cf = None \<or>
       ty = ''fuzzy'' \<and> (cf = Some (9 / 10) \<or> cf = Some (7 / 10)))"
  proof (cases "\<exists>g' gs'. map_of G (fst e) = Some (g' # gs')")
    case True
    then obtain g' gs' where m: "map_of G (fst e) = Some (g' # gs')" by auto
    with assms(2) have "g = g'" "k = fst e" "ty = ''exact''" "cf = None"
      by (auto simp: decideEntry_def split: list.splits)
    with m show ?thesis by (auto dest: map_of_SomeD)
  next
    case False
    then have nb: "map_of G (fst e) = None \<or> map_of G (fst e) = Some []"
    proof (cases "map_of G (fst e)")
      case None
      then show ?thesis by simp
    next
      case (Some a)
      with False show ?thesis by (cases a) auto
    qed
    from assms(2) nb obtain s' f where f: "findFuzzyMatch s' G P = Some f"
      "g = fuzzyInvoice f" "ty = ''fuzzy''" "cf = Some (confidence f)"
      "k = indexKey (fuzzyInvoice f)"
      by (auto simp: decideEntry_def split: list.splits option.splits)
    from findFuzzyMatch_Some [OF f(1)] obtain k' gs where
      k': "(k', fuzzyInvoice f # gs) \<in> set G"
      "confidence f = 9 / 10 \<or> confidence f = 7 / 10"
      by auto
    have "indexKey (fuzzyInvoice f) = k'"
      using wellIndexed_entry(2) [OF assms(1) k'(1), of "fuzzyInvoice f"] by simp
    with f k' show ?thesis by auto
  qed
  then obtain gs where *: "(k, g # gs) \<in> set G"
    "ty = ''exact'' \<and> cf = None \<or>
     ty = ''fuzzy'' \<and> (cf = Some (9 / 10) \<or> cf = Some (7 / 10))"
    by auto
  show "truthy (invoiceNo g)" "indexKey g = k"
    using wellIndexed_entry(2) [OF assms(1) *(1), of g] by simp_all
  show "k \<in> fst ` set G" using *(1) by force
  show "ty = ''exact'' \<and> cf = None \<or>
         ty = ''fuzzy'' \<and> (cf = Some (9 / 10) \<or> cf = Some (7 / 10))"
    by (rule *(2))
qed

lemma goodPair_annotate:
  assumes "truthy (invoiceNo s)" and "truthy (invoiceNo g)"
    and "ty = ''exact'' \<and> cf = None \<or>
         ty = ''fuzzy'' \<and> (cf = Some (9 / 10) \<or> cf = Some (7 / 10))"
  shows "goodPair tol (annotate ty cf (compareInvoices s g tol))"
  using assms by (simp add: goodPair_def)

lemma matcherInv_step:
  assumes inv: "matcherInv G tol st" and G: "wellIndexed G" and S: "wellIndexed S"
    and e: "e \<in> set S"
  shows "matcherInv G tol (matchSalesEntry G tol st e)"
proof (cases "decideEntry G (snd st) e")
  case NoSalesInvoice
  with decideEntry_not_skipped [OF S e] show ?thesis by simp
next
  case (PairedWith s g ty cf k)
  note p = decideEntry_paired [OF G PairedWith]
  have s: "truthy (invoiceNo s)"
    using decideEntry_sales [OF S e] PairedWith by blast
  define c where "c = annotate ty cf (compareInvoices s g tol)"
  have gp: "goodPair tol c"
    unfolding c_def by (rule goodPair_annotate [OF s p(1) p(4)])
  have key: "indexKey (gstr1Invoice c) = k"
    by (simp add: c_def p(2))
  have step: "matchSalesEntry G tol st e =
      (recordComparison c (noteDuplicates G e (fst st)), insert k (snd st))"
    using matchSalesEntry_decide [of G tol "fst st" "snd st" e] PairedWith
    by (simp add: c_def)
  show ?thesis
    using inv gp key p(3)
    unfolding step matcherInv_def
    by (cases "discrepancies c = []") (auto simp: recordComparison_fields)
next
  case (NotFound s)
  have s: "truthy (invoiceNo s)"
    using decideEntry_sales [OF S e] NotFound by blast
  have step: "matchSalesEntry G tol st e = (addMissingSales s (noteDuplicates G e (fst st)), snd st)"
    using matchSalesEntry_decide [of G tol "fst st" "snd st" e] NotFound by simp
  have m: "missingSalesInGSTR1 (addMissingSales s r) = missingSalesInGSTR1 r @
      [\<lparr> missingRecord = s, missingStatus = ''MISSING_IN_GSTR1'', missingSeverity = ''high'',
         suggestion = ''Add this invoice to GSTR-1 filing'' \<rparr>]" for r
    by (simp add: addMissingSales_def)
  show ?thesis
    using inv s unfolding step matcherInv_def
    by (auto simp: addMissingSales_fields m)
qed

lemma foldl_invariant:
  assumes "I s" and "\<And>s x. I s \<Longrightarrow> x \<in> set xs \<Longrightarrow> I (f s x)"
  shows "I (foldl f s xs)"
  using assms by (induction xs arbitrary: s) auto

lemma matcherInv_initial: "matcherInv G tol (initialResult L R, {})"
  by (simp add: matcherInv_def initialResult_def)

lemma matcherInv_matchAll: "matcherInv (buildInvoiceMap R ''gstr1'') tol (matchAll L R tol)"
  unfolding matchAll_def
  by (rule foldl_invariant [where I = "matcherInv (buildInvoiceMap R ''gstr1'') tol"])
    (auto intro: matcherInv_initial matcherInv_step buildInvoiceMap_buckets)

subsection \<open>Counting outcomes\<close>




subsection \<open>The second loop\<close>

lemma missingEntry_foldl:
  "matched (foldl (missingEntry P) res G) = matched res"
  "mismatched (foldl (missingEntry P) res G) = mismatched res"
  "missingSalesInGSTR1 (foldl (missingEntry P) res G) = missingSalesInGSTR1 res"
  "missingGSTR1InSales (foldl (missingEntry P) res G) =
     missingGSTR1InSales res @ map reportMissing (unprocessed P G)"
  "matchedCount (summary (foldl (missingEntry P) res G)) = matchedCount (summary res)"
  "mismatchedCount (summary (foldl (missingEntry P) res G)) = mismatchedCount (summary res)"
  "missingSalesInGSTR1Count (summary (foldl (missingEntry P) res G)) =
     missingSalesInGSTR1Count (summary res)"
  "missingGSTR1InSalesCount (summary (foldl (missingEntry P) res G)) =
     missingGSTR1InSalesCount (summary res) + length (unprocessed P G)"
  by (induction G arbitrary: res; simp add: missingEntry_def unprocessed_def split: prod.split)+

text \<open>The lists and counts of the result, read off the state after the first loop.\<close>

lemma reconcileData_fields:
  fixes L R opts
  defines "st \<equiv> matchAll L R (effectiveTolerance opts)"
  defines "r \<equiv> reconcileData L R opts"
  shows "matched r = matched (fst st)"
    and "mismatched r = mismatched (fst st)"
    and "missingSalesInGSTR1 r = missingSalesInGSTR1 (fst st)"
    and "missingGSTR1InSales r = missingGSTR1InSales (fst st) @
           map reportMissing (unprocessed (snd st) (buildInvoiceMap R ''gstr1''))"
    and "matchedCount (summary r) = matchedCount (summary (fst st))"
    and "mismatchedCount (summary r) = mismatchedCount (summary (fst st))"
    and "missingSalesInGSTR1Count (summary r) = missingSalesInGSTR1Count (summary (fst st))"
    and "missingGSTR1InSalesCount (summary r) = missingGSTR1InSalesCount (summary (fst st)) +
           length (unprocessed (snd st) (buildInvoiceMap R ''gstr1''))"
  unfolding r_def st_def reconcileData_def
  by (simp_all add: Let_def missingEntry_foldl split: prod.split)




lemma matcherInvD:
  assumes "matcherInv G tol st"
  shows "snd st = (\<lambda>c. indexKey (gstr1Invoice c)) ` set (matched (fst st) @ mismatched (fst st))"
    and "snd st \<subseteq> fst ` set G"
    and "missingGSTR1InSales (fst st) = []"
    and "matchedCount (summary (fst st)) = length (matched (fst st))"
    and "mismatchedCount (summary (fst st)) = length (mismatched (fst st))"
    and "missingSalesInGSTR1Count (summary (fst st)) = length (missingSalesInGSTR1 (fst st))"
    and "missingGSTR1InSalesCount (summary (fst st)) = 0"
    and "c \<in> set (matched (fst st)) \<Longrightarrow> discrepancies c = [] \<and> goodPair tol c"
    and "c \<in> set (mismatched (fst st)) \<Longrightarrow> discrepancies c \<noteq> [] \<and> goodPair tol c"
    and "m \<in> set (missingSalesInGSTR1 (fst st)) \<Longrightarrow> truthy (invoiceNo (missingRecord m))"
  using assms unfolding matcherInv_def set_append by blast+

subsection \<open>Every pair takes a fresh GSTR-1 key\<close>











lemma indexedInvoices_truthy:
  assumes "wellIndexed m" and "y \<in> set (indexedInvoices m)"
  shows "truthy (invoiceNo y)"
  using assms by (auto simp: indexedInvoices_def wellIndexed_def)

lemma unprocessed_subset: "set (unprocessed P G) \<subseteq> set (indexedInvoices G)"
  by (auto simp: unprocessed_def indexedInvoices_def)

lemma reportMissing_record [simp]: "missingRecord (reportMissing x) = x"
  by (simp add: reportMissing_def)

lemma resultInvoices_truthy:
  assumes "y \<in> set (resultInvoices (reconcileData L R opts))"
  shows "truthy (invoiceNo y)"
proof -
  define tol where "tol = effectiveTolerance opts"
  define st where "st = matchAll L R tol"
  define G where "G = buildInvoiceMap R ''gstr1''"
  define r where "r = reconcileData L R opts"
  note f = reconcileData_fields [of L R opts, folded r_def tol_def, folded st_def G_def]
  have inv: "matcherInv G tol st"
    unfolding G_def st_def by (rule matcherInv_matchAll)
  note i = matcherInvD [OF inv]
  have G: "wellIndexed G"
    unfolding G_def by (rule buildInvoiceMap_buckets)
  have pair: "truthy (invoiceNo (salesInvoice c)) \<and> truthy (invoiceNo (gstr1Invoice c))"
    if "c \<in> set (matched r @ mismatched r)" for c
    using that i(8) [of c] i(9) [of c] by (auto simp: f goodPair_def)
  have ms: "truthy (invoiceNo (missingRecord m))" if "m \<in> set (missingSalesInGSTR1 r)" for m
    using that i(10) [of m] by (simp add: f)
  have mg: "truthy (invoiceNo (missingRecord m))" if "m \<in> set (missingGSTR1InSales r)" for m
  proof -
    from that obtain x where "x \<in> set (unprocessed (snd st) G)" "m = reportMissing x"
      by (auto simp: f i(3))
    then show ?thesis
      using unprocessed_subset [of "snd st" G] indexedInvoices_truthy [OF G, of x] by auto
  qed
  from assms consider
    c where "c \<in> set (matched r @ mismatched r)" "y = salesInvoice c \<or> y = gstr1Invoice c"
    | m where "m \<in> set (missingSalesInGSTR1 r)" "y = missingRecord m"
    | m where "m \<in> set (missingGSTR1InSales r)" "y = missingRecord m"
    unfolding resultInvoices_def r_def [symmetric] by auto
  then show ?thesis
    using pair ms mg by cases auto
qed

text \<open>
  Claim C8 (invoices without identifier), as amended. An invoice whose identifier is empty
  or absent is never put into the index, and it occurs in no list of the result: not in a
  pair and not in a missing bucket either. Every invoice of the index and of the result
  has an identifier. The model has no error branch: the run completes.
\<close>

theorem identifierless_invoices_dropped:
  "(\<forall>y \<in> set (indexedInvoices (buildInvoiceMap xs src)). truthy (invoiceNo y)) \<and>
   (\<forall>y \<in> set (resultInvoices (reconcileData L R opts)). truthy (invoiceNo y))"
  using indexedInvoices_truthy [OF buildInvoiceMap_buckets] resultInvoices_truthy
  by blast

text \<open>
  With a numbered and an unnumbered sales invoice, only the numbered one is indexed and
  occurs in the result.
\<close>

theorem identifierless_invoices_dropped_witness:
  "(let r = reconcileData [sale ''INV-001'' ''GSTIN1'' 1000, unnumbered]
              [sale ''inv001'' ''GSTIN1'' 1000] noOptions
    in \<not> truthy (invoiceNo unnumbered) \<and>
       map invoiceNo (indexedInvoices
         (buildInvoiceMap [sale ''INV-001'' ''GSTIN1'' 1000, unnumbered] ''sales'')) =
         [Some ''INV-001''] \<and>
       map invoiceNo (resultInvoices r) = [Some ''INV-001'', Some ''inv001''] \<and>
       (\<forall>y \<in> set (resultInvoices r). truthy (invoiceNo y)))"
  using identifierless_invoices_dropped [of "[sale ''INV-001'' ''GSTIN1'' 1000, unnumbered]"
      "''sales''" "[sale ''INV-001'' ''GSTIN1'' 1000, unnumbered]"
      "[sale ''inv001'' ''GSTIN1'' 1000]" noOptions]
  by (simp add: matcher_eval)

text \<open>
  An invoice without identifier is not reported as missing, on either side; only the
  total of the summary counts it.
\<close>

theorem identifierless_invoices_dropped_counterexample:
  "\<not> truthy (invoiceNo unnumbered) \<and>
   (let r = reconcileData [unnumbered] [] noOptions
    in totalSalesInvoices (summary r) = 1 \<and> matched r = [] \<and> mismatched r = [] \<and>
       missingSalesInGSTR1 r = [] \<and> missingGSTR1InSales r = []) \<and>
   (let r = reconcileData [] [unnumbered] noOptions
    in totalGSTR1Invoices (summary r) = 1 \<and> matched r = [] \<and> mismatched r = [] \<and>
       missingSalesInGSTR1 r = [] \<and> missingGSTR1InSales r = [])"
  by (simp add: matcher_eval)


subsection \<open>Purchase side\<close>
























subsection \<open>The tolerance does not influence the pairing\<close>

lemma foldl_related:
  assumes "Q s s'" and "\<And>s s' x. Q s s' \<Longrightarrow> Q (f s x) (f' s' x)"
  shows "Q (foldl f s xs) (foldl f' s' xs)"
  using assms by (induction xs arbitrary: s s') auto

lemma compareAmount_empty: "compareAmount k l a b tol = [] \<longleftrightarrow> \<bar>amountOrZero a - amountOrZero b\<bar> \<le> tol"
  by (simp add: compareAmount_def Let_def not_less)

lemma compareInvoices_mono:
  assumes "tol \<le> tol'" and "discrepancies (compareInvoices s g tol) = []"
  shows "discrepancies (compareInvoices s g tol') = []"
  using assms by (simp add: compareInvoices_def Let_def compareAmount_empty)

lemma pairing_annotate [simp]:
  "pairing (annotate ty cf (compareInvoices s g tol)) = (s, g, ty, cf)"
  by (simp add: pairing_def)

lemma sameMatching_step:
  assumes "sameMatching st st'"
  shows "sameMatching (matchSalesEntry G tol st e) (matchSalesEntry G tol' st' e)"
proof -
  obtain res res' P where st: "st = (res, P)" "st' = (res', P)"
    using assms by (cases st; cases st') (simp add: sameMatching_def)
  note a = matchSalesEntry_decide [of G tol res P e, folded st]
  note b = matchSalesEntry_decide [of G tol' res' P e, folded st]
  have fs: "fst st = res" "fst st' = res'" "snd st = P" "snd st' = P"
    by (simp_all add: st)
  show ?thesis
  proof (cases "decideEntry G P e")
    case NoSalesInvoice
    with a b assms show ?thesis by simp
  next
    case (PairedWith s g ty cf k)
    with a b assms show ?thesis
      by (simp add: sameMatching_def recordComparison_fields fs)
  next
    case (NotFound s)
    with a b assms show ?thesis
      by (simp add: sameMatching_def addMissingSales_def fs)
  qed
qed

lemma noFewerMatched_step:
  assumes "noFewerMatched st st'" and "tol \<le> tol'"
  shows "noFewerMatched (matchSalesEntry G tol st e) (matchSalesEntry G tol' st' e)"
proof -
  obtain res res' P where st: "st = (res, P)" "st' = (res', P)"
    using assms by (cases st; cases st') (simp add: sameMatching_def noFewerMatched_def)
  note a = matchSalesEntry_decide [of G tol res P e, folded st]
  note b = matchSalesEntry_decide [of G tol' res' P e, folded st]
  have fs: "fst st = res" "fst st' = res'" "snd st = P" "snd st' = P"
    by (simp_all add: st)
  have s: "sameMatching (matchSalesEntry G tol st e) (matchSalesEntry G tol' st' e)"
    using assms(1) by (simp add: noFewerMatched_def sameMatching_step)
  have "length (matched (fst (matchSalesEntry G tol st e)))
      \<le> length (matched (fst (matchSalesEntry G tol' st' e)))"
  proof (cases "decideEntry G P e")
    case NoSalesInvoice
    with a b assms show ?thesis by (simp add: noFewerMatched_def)
  next
    case (PairedWith s g ty cf k)
    with a b assms compareInvoices_mono [OF assms(2), of s g] show ?thesis
      by (auto simp: noFewerMatched_def recordComparison_fields fs)
  next
    case (NotFound s)
    with a b assms show ?thesis
      by (simp add: noFewerMatched_def addMissingSales_def fs)
  qed
  with s show ?thesis by (simp add: noFewerMatched_def)
qed


lemma noFewerMatched_matchAll:
  "tol \<le> tol' \<Longrightarrow> noFewerMatched (matchAll L R tol) (matchAll L R tol')"
  unfolding matchAll_def
  by (rule foldl_related [where Q = noFewerMatched])
    (simp_all add: noFewerMatched_def [of "(initialResult L R, {})"]
      sameMatching_def [of "(initialResult L R, {})"] noFewerMatched_step)

text \<open>
  The counts are monotone in the tolerance that \<open>compareInvoices\<close> receives, which is
  \<open>toleranceAmount\<close> except that an absent and a zero \<open>toleranceAmount\<close> are replaced by 1.
\<close>

lemma effective_tolerance_monotone:
  fixes L R opts opts'
  defines "r \<equiv> reconcileData L R opts" and "r' \<equiv> reconcileData L R opts'"
  assumes "effectiveTolerance opts \<le> effectiveTolerance opts'"
  shows "matchedCount (summary r) \<le> matchedCount (summary r')"
    and "mismatchedCount (summary r') \<le> mismatchedCount (summary r)"
proof -
  define st where "st = matchAll L R (effectiveTolerance opts)"
  define st' where "st' = matchAll L R (effectiveTolerance opts')"
  note f = reconcileData_fields [of L R opts, folded r_def st_def]
  note f' = reconcileData_fields [of L R opts', folded r'_def st'_def]
  note i = matcherInvD [OF matcherInv_matchAll [of R "effectiveTolerance opts" L], folded st_def]
  note i' = matcherInvD [OF matcherInv_matchAll [of R "effectiveTolerance opts'" L], folded st'_def]
  have n: "noFewerMatched st st'"
    unfolding st_def st'_def by (rule noFewerMatched_matchAll [OF assms(3)])
  show "matchedCount (summary r) \<le> matchedCount (summary r')"
    using n by (simp add: f f' i(4) i'(4) noFewerMatched_def)
  show "mismatchedCount (summary r') \<le> mismatchedCount (summary r)"
    using n by (simp add: f f' i(5) i'(5) noFewerMatched_def sameMatching_def)
qed





subsection \<open>Runs on which a claim fails\<close>

text \<open>
  Claim C2 (single consumption) fails on the code. The sales invoice A1 has no exact
  counterpart and is paired with the GSTR-1 invoice B2 by the fuzzy matcher, which marks
  the key B2 as processed. The exact branch does not look at the processed keys, so the
  sales invoice B2 is then paired with the same GSTR-1 invoice.
\<close>

theorem consumed_invoice_paired_again:
  "(let r = reconcileData [sale ''A1'' ''G1'' 100, sale ''B2'' ''G1'' 100]
              [sale ''B2'' ''G1'' 100] noOptions
    in map (\<lambda>c. (invoiceNo (salesInvoice c), invoiceNo (gstr1Invoice c), matchType c))
         (matched r) =
         [(Some ''A1'', Some ''B2'', ''fuzzy''), (Some ''B2'', Some ''B2'', ''exact'')] \<and>
       mismatched r = [] \<and> missingSalesInGSTR1 r = [] \<and> missingGSTR1InSales r = [] \<and>
       \<not> distinct (map gstr1Invoice (matched r @ mismatched r)))"
  by (simp add: matcher_eval)

text \<open>
  Claim C5 (scenario 1) fails on the code. The normalizer keeps the hyphen, so the keys
  \<open>INV-001\<close> and \<open>INV001\<close> differ and there is no exact match; the pair is made by
  the fuzzy matcher with confidence 0.9 and has no discrepancies.
\<close>

theorem scenario1_is_fuzzy:
  "normalizeInvoiceNo (Some ''INV-001'') = ''INV-001'' \<and>
   normalizeInvoiceNo (Some ''inv001'') = ''INV001'' \<and>
   (let r = reconcileData [sale ''INV-001'' ''GSTIN1'' 1000] [sale ''inv001'' ''GSTIN1'' 1000]
              noOptions
    in map (\<lambda>c. (matchType c, matchConfidence c, discrepancies c)) (matched r) =
         [(''fuzzy'', Some (9 / 10), [])] \<and>
       mismatched r = [] \<and> missingSalesInGSTR1 r = [] \<and> missingGSTR1InSales r = [])"
  by (simp add: matcher_eval)

text \<open>
  Claim C9 (monotone tolerance) fails on the code at the tolerance 0, which
  \<open>options.toleranceAmount || 1\<close> replaces by 1: totals 100 and 100.7 are matched with the
  tolerance 0 and mismatched with the larger tolerance 0.5.
\<close>

theorem zero_tolerance_not_monotone:
  "(0 :: real) \<le> 1 / 2 \<and>
   (let L = [sale ''A'' ''G1'' 100]; R = [sale ''A'' ''G1'' (1007 / 10)];
        r1 = reconcileData L R (withTolerance 0);
        r2 = reconcileData L R (withTolerance (1 / 2))
    in matchedCount (summary r1) = 1 \<and> mismatchedCount (summary r1) = 0 \<and>
       matchedCount (summary r2) = 0 \<and> mismatchedCount (summary r2) = 1 \<and>
       effectiveTolerance (withTolerance 0) = 1)"
  by (simp add: matcher_eval)

end
